theory Spec2Isabelle
  imports Main "HOL-Library.Word"
begin

section \<open>The numexpr virtual machine: interpreter.cpp\<close>

text \<open>
  A shallow embedding of \<^verbatim>\<open>src/numexpr/interpreter.cpp\<close>: the helpers that read a
  program (\<^verbatim>\<open>op_signature\<close>, \<^verbatim>\<open>get_return_sig\<close>, \<^verbatim>\<open>last_opcode\<close>,
  \<^verbatim>\<open>get_reduction_axis\<close>), the validator \<^verbatim>\<open>check_program\<close>, the string
  comparison \<^verbatim>\<open>stringcmp\<close>, the set-up of the parallel engine
  \<^verbatim>\<open>vm_engine_iter_parallel\<close>, the dispatcher \<^verbatim>\<open>run_interpreter\<close> and the control
  flow of \<^verbatim>\<open>NumExpr_run\<close>.

  A program is a sequence of bytes (\<^verbatim>\<open>unsigned char\<close>), a signature a sequence of
  \<^verbatim>\<open>char\<close>. Reads outside a buffer, which C leaves undefined, are a result of their
  own in every function that can make one.
\<close>

type_synonym byte = "8 word"

subsection \<open>Strings of fixed width: stringcmp\<close>

text \<open>
  \<^verbatim>\<open>stringcmp\<close> walks two \<^verbatim>\<open>const char *\<close>. Each pointer is either inside its
  buffer, at an offset, or at the local \<^verbatim>\<open>null\<close> byte; a pointer moved past
  \<^verbatim>\<open>null\<close> points nowhere.
\<close>

datatype cursor = At nat | AtNull | Nowhere

definition deref :: "byte list \<Rightarrow> cursor \<Rightarrow> byte option" where
  "deref s p =
     (case p of
        At k \<Rightarrow> (if k < length s then Some (s ! k) else None)
      | AtNull \<Rightarrow> Some 0
      | Nowhere \<Rightarrow> None)"

definition advance :: "cursor \<Rightarrow> cursor" where
  "advance p = (case p of At k \<Rightarrow> At (Suc k) | AtNull \<Rightarrow> Nowhere | Nowhere \<Rightarrow> Nowhere)"

text \<open>
  Whether \<^verbatim>\<open>char\<close> is signed is the C implementation's choice; \<open>sg\<close> is that
  choice, and \<open>char_val sg c\<close> the value \<^verbatim>\<open>*s1 < *s2\<close> compares.
\<close>

definition char_val :: "bool \<Rightarrow> byte \<Rightarrow> int" where
  "char_val sg c = (if sg then sint c else uint c)"

text \<open>
  The loop \<^verbatim>\<open>for (nextpos = 1; nextpos <= maxlen; nextpos++)\<close>. \<open>None\<close> is a read
  outside the buffers.
\<close>

function stringcmp_loop ::
  "bool \<Rightarrow> byte list \<Rightarrow> byte list \<Rightarrow> int \<Rightarrow> int \<Rightarrow> int \<Rightarrow> cursor \<Rightarrow> cursor \<Rightarrow> int \<Rightarrow> int option"
where
  "stringcmp_loop sg s1 s2 maxlen1 maxlen2 maxlen p1 p2 nextpos =
     (if nextpos \<le> maxlen then
        (case deref s1 p1 of
           None \<Rightarrow> None
         | Some c1 \<Rightarrow>
            (case deref s2 p2 of
               None \<Rightarrow> None
             | Some c2 \<Rightarrow>
                 if char_val sg c1 < char_val sg c2 then Some (- 1)
                 else if char_val sg c1 > char_val sg c2 then Some 1
                 else stringcmp_loop sg s1 s2 maxlen1 maxlen2 maxlen
                        (if nextpos \<ge> maxlen1 then AtNull else advance p1)
                        (if nextpos \<ge> maxlen2 then AtNull else advance p2)
                        (nextpos + 1)))
      else Some 0)"
  by pat_completeness auto
termination
  by (relation "measure (\<lambda>(sg, s1, s2, m1, m2, m, p1, p2, n). nat (m + 1 - n))") auto

declare stringcmp_loop.simps [simp del]

definition stringcmp :: "bool \<Rightarrow> byte list \<Rightarrow> byte list \<Rightarrow> int \<Rightarrow> int \<Rightarrow> int option" where
  "stringcmp sg s1 s2 maxlen1 maxlen2 =
     (let maxlen = (if maxlen1 > maxlen2 then maxlen1 else maxlen2)
      in stringcmp_loop sg s1 s2 maxlen1 maxlen2 maxlen (At 0) (At 0) 1)"

text \<open>
  The comparison as the specification words it: both strings padded with NUL bytes to the
  longer declared width, then compared byte by byte in the order of the byte values
  0 to 255, so that NUL is below every other byte.
\<close>

definition nul_pad :: "nat \<Rightarrow> byte list \<Rightarrow> byte list" where
  "nul_pad n s = s @ replicate (n - length s) 0"

fun compare_bytes :: "byte list \<Rightarrow> byte list \<Rightarrow> int" where
  "compare_bytes (a # as) (b # bs) =
     (if uint a < uint b then - 1
      else if uint a > uint b then 1
      else compare_bytes as bs)"
| "compare_bytes _ _ = 0"

definition padded_compare :: "byte list \<Rightarrow> byte list \<Rightarrow> nat \<Rightarrow> nat \<Rightarrow> int" where
  "padded_compare s1 s2 w1 w2 =
     compare_bytes (nul_pad (max w1 w2) (take w1 s1)) (nul_pad (max w1 w2) (take w2 s2))"

subsection \<open>Opcode signatures\<close>

text \<open>
  The opcode numbering, the signature table and the lengths of the six function tables come
  from \<^verbatim>\<open>opcodes.hpp\<close> and \<^verbatim>\<open>functions.hpp\<close>; \<^verbatim>\<open>MAX_DIMS\<close> and
  \<^verbatim>\<open>BLOCK_SIZE1\<close> from the NumPy headers and \<^verbatim>\<open>numexpr_config.hpp\<close>. The functions
  of \<^verbatim>\<open>interpreter.cpp\<close> take them as a record.
\<close>

record isa =
  OP_NOOP :: int
  OP_FUNC_FFN :: int
  OP_FUNC_FFFN :: int
  OP_FUNC_DDN :: int
  OP_FUNC_DDDN :: int
  OP_FUNC_CCN :: int
  OP_FUNC_CCCN :: int
  OP_REDUCTION :: int
  OP_SUM :: int
  OP_PROD :: int
  OP_END :: int
  FUNC_FF_LAST :: int
  FUNC_FFF_LAST :: int
  FUNC_DD_LAST :: int
  FUNC_DDD_LAST :: int
  FUNC_CC_LAST :: int
  FUNC_CCC_LAST :: int
  op_signature_table :: "nat \<Rightarrow> nat \<Rightarrow> char"
  MAX_DIMS :: int
  BLOCK_SIZE1 :: int

definition max_args :: nat where
  "max_args = 4"

text \<open>A character constant as the \<^verbatim>\<open>int\<close> it is compared with.\<close>

definition chr :: "char \<Rightarrow> int" where
  "chr c = int (of_char c)"

text \<open>
  \<^verbatim>\<open>op_signature\<close>: 0 past the last argument, -1 for an opcode outside the table. The
  entries of the table are the letters of \<^verbatim>\<open>bilfdcsn\<close> or 0, so their sign as
  \<^verbatim>\<open>char\<close> does not matter.
\<close>

definition op_signature :: "isa \<Rightarrow> int \<Rightarrow> nat \<Rightarrow> int" where
  "op_signature cfg op n =
     (if n \<ge> max_args then 0
      else if op < 0 \<or> op > OP_END cfg then - 1
      else chr (op_signature_table cfg (nat op) n))"

subsection \<open>Reading a program\<close>

text \<open>
  \<^verbatim>\<open>get_return_sig\<close> steps back over the no-ops at the end of the program. It reads the
  opcode through a \<^verbatim>\<open>char\<close>, whose sign is \<open>sg\<close>.
\<close>

function get_return_sig_loop :: "isa \<Rightarrow> bool \<Rightarrow> byte list \<Rightarrow> int \<Rightarrow> char" where
  "get_return_sig_loop cfg sg program_str e =
     (let e' = e - 4 in
      if e' < 0 then CHR ''X''
      else
        let last_opcode = char_val sg (program_str ! nat e') in
        if last_opcode = OP_NOOP cfg then get_return_sig_loop cfg sg program_str e'
        else
          let sig = op_signature cfg last_opcode 0 in
          if sig \<le> 0 then CHR ''X'' else char_of sig)"
  by pat_completeness auto
termination
  by (relation "measure (\<lambda>(cfg, sg, p, e). nat e)") auto

declare get_return_sig_loop.simps [simp del]

definition get_return_sig :: "isa \<Rightarrow> bool \<Rightarrow> byte list \<Rightarrow> char" where
  "get_return_sig cfg sg program = get_return_sig_loop cfg sg program (int (length program))"

datatype npy_type =
  PyArray_BOOL | PyArray_INT | PyArray_LONGLONG | PyArray_FLOAT | PyArray_DOUBLE
  | PyArray_CDOUBLE | PyArray_STRING

text \<open>
  \<^verbatim>\<open>typecode_from_char\<close>: \<open>None\<close> is the return value -1, which comes with the
  \<^verbatim>\<open>TypeError\<close> "signature value not in 'bilfdcs'".
\<close>

definition typecode_from_char :: "char \<Rightarrow> npy_type option" where
  "typecode_from_char c =
     (if c = CHR ''b'' then Some PyArray_BOOL
      else if c = CHR ''i'' then Some PyArray_INT
      else if c = CHR ''l'' then Some PyArray_LONGLONG
      else if c = CHR ''f'' then Some PyArray_FLOAT
      else if c = CHR ''d'' then Some PyArray_DOUBLE
      else if c = CHR ''c'' then Some PyArray_CDOUBLE
      else if c = CHR ''s'' then Some PyArray_STRING
      else None)"

text \<open>
  \<^verbatim>\<open>last_opcode\<close> reads \<^verbatim>\<open>program[n-4]\<close> and \<^verbatim>\<open>get_reduction_axis\<close> reads
  \<^verbatim>\<open>program[end-1]\<close>, both as \<^verbatim>\<open>unsigned char\<close>; \<open>None\<close> is the read before the
  start of a program that is too short.
\<close>

definition last_opcode :: "byte list \<Rightarrow> int option" where
  "last_opcode program =
     (let n = int (length program) in
      if n - 4 < 0 then None else Some (uint (program ! nat (n - 4))))"

definition get_reduction_axis :: "isa \<Rightarrow> byte list \<Rightarrow> int option" where
  "get_reduction_axis cfg program =
     (let e = int (length program) in
      if e - 1 < 0 then None
      else
        let axis = uint (program ! nat (e - 1)) in
        Some (if axis \<noteq> 255 \<and> axis \<ge> MAX_DIMS cfg then MAX_DIMS cfg - axis else axis))"

subsection \<open>The validator: check_program\<close>

text \<open>
  The errors of \<^verbatim>\<open>check_program\<close>, one per \<^verbatim>\<open>PyErr_Format\<close>, with the values each
  message prints. \<open>ReadOutsideProgram\<close> is not an error of the source: it is the read
  of \<^verbatim>\<open>program[argloc]\<close> at or past \<^verbatim>\<open>prog_len\<close>, which the source performs
  unchecked.
\<close>

datatype check_error =
    CantReadProgram
  | ProgLenMod4
  | CantReadFullsig
  | CantReadSignature
  | TooManyBuffers
  | ReductionNotLast
  | IllegalOpcode nat int
  | DoubleOpcodeAtEnd nat int
  | BufferOutOfRange int int
  | FunccodeOutOfRange int int
  | InternalCheckerError int
  | SignatureMismatch int int int
  | ReadOutsideProgram int

text \<open>
  The checks of one argument: the body of the loop over \<^verbatim>\<open>argno\<close> once
  \<^verbatim>\<open>sig\<close> is known, in four pieces.
\<close>

definition funccode_check :: "int \<Rightarrow> int \<Rightarrow> int \<Rightarrow> check_error + unit" where
  "funccode_check arg table_len argloc =
     (if arg < 0 \<or> arg \<ge> table_len then Inl (FunccodeOutOfRange arg argloc) else Inr ())"

text \<open>The chain on \<^verbatim>\<open>op\<close> under \<^verbatim>\<open>if (sig == 'n')\<close>.\<close>

definition funccode_dispatch :: "isa \<Rightarrow> int \<Rightarrow> int \<Rightarrow> int \<Rightarrow> check_error + unit" where
  "funccode_dispatch cfg op arg argloc =
     (if op = OP_FUNC_FFN cfg then funccode_check arg (FUNC_FF_LAST cfg) argloc
      else if op = OP_FUNC_FFFN cfg then funccode_check arg (FUNC_FFF_LAST cfg) argloc
      else if op = OP_FUNC_DDN cfg then funccode_check arg (FUNC_DD_LAST cfg) argloc
      else if op = OP_FUNC_DDDN cfg then funccode_check arg (FUNC_DDD_LAST cfg) argloc
      else if op = OP_FUNC_CCN cfg then funccode_check arg (FUNC_CC_LAST cfg) argloc
      else if op = OP_FUNC_CCCN cfg then funccode_check arg (FUNC_CCC_LAST cfg) argloc
      else if op \<ge> OP_REDUCTION cfg then Inr ()
      else Inl (InternalCheckerError argloc))"

text \<open>The comparison of \<^verbatim>\<open>sig\<close> with \<^verbatim>\<open>fullsig[arg]\<close>, with the i/l duality.\<close>

definition buffer_type_check :: "string \<Rightarrow> int \<Rightarrow> int \<Rightarrow> int \<Rightarrow> check_error + unit" where
  "buffer_type_check fullsig sig arg argloc =
     (if (sig = chr CHR ''l'' \<and> fullsig ! nat arg = CHR ''i'')
        \<or> (sig = chr CHR ''i'' \<and> fullsig ! nat arg = CHR ''l'') then Inr ()
      else if sig \<noteq> chr (fullsig ! nat arg)
      then Inl (SignatureMismatch sig (chr (fullsig ! nat arg)) argloc)
      else Inr ())"

definition arg_location :: "nat \<Rightarrow> nat \<Rightarrow> int" where
  "arg_location pc argno =
     (if argno < 3 then int pc + int argno + 1 else int pc + int argno + 2)"

definition check_arg ::
  "isa \<Rightarrow> byte list \<Rightarrow> string \<Rightarrow> nat \<Rightarrow> int \<Rightarrow> nat \<Rightarrow> int \<Rightarrow> check_error + unit"
where
  "check_arg cfg program fullsig pc op argno sig =
     (let prog_len = int (length program); n_buffers = int (length fullsig) in
      if argno \<ge> 3 \<and> int pc + 1 \<ge> prog_len then Inl (DoubleOpcodeAtEnd pc sig)
      else
        let argloc = arg_location pc argno in
        if argloc \<ge> prog_len then Inl (ReadOutsideProgram argloc)
        else
          let arg = uint (program ! nat argloc) in
          if sig \<noteq> chr CHR ''n'' \<and> (arg \<ge> n_buffers \<or> arg < 0)
          then Inl (BufferOutOfRange arg argloc)
          else if sig = chr CHR ''n'' then funccode_dispatch cfg op arg argloc
          else buffer_type_check fullsig sig arg argloc)"

text \<open>The loop \<^verbatim>\<open>for (argno = 0; ; argno++)\<close>, which ends at the first signature 0.\<close>

function check_args ::
  "isa \<Rightarrow> byte list \<Rightarrow> string \<Rightarrow> nat \<Rightarrow> int \<Rightarrow> nat \<Rightarrow> check_error + unit"
where
  "check_args cfg program fullsig pc op argno =
     (let sig = op_signature cfg op argno in
      if sig = - 1 then Inl (IllegalOpcode pc op)
      else if sig = 0 then Inr ()
      else
        (case check_arg cfg program fullsig pc op argno sig of
           Inl e \<Rightarrow> Inl e
         | Inr _ \<Rightarrow> check_args cfg program fullsig pc op (Suc argno)))"
  by pat_completeness auto
termination
  by (relation "measure (\<lambda>(cfg, p, fs, pc, op, argno). max_args - argno)")
    (auto simp: op_signature_def split: if_splits)

declare check_args.simps [simp del]

text \<open>One turn of the loop over \<^verbatim>\<open>pc\<close>.\<close>

definition check_instr :: "isa \<Rightarrow> byte list \<Rightarrow> string \<Rightarrow> nat \<Rightarrow> check_error + unit" where
  "check_instr cfg program fullsig pc =
     (let op = uint (program ! pc) in
      if op = OP_NOOP cfg then Inr ()
      else if op \<ge> OP_REDUCTION cfg \<and> int pc \<noteq> int (length program) - 4
      then Inl ReductionNotLast
      else check_args cfg program fullsig pc op 0)"

function check_instrs :: "isa \<Rightarrow> byte list \<Rightarrow> string \<Rightarrow> nat \<Rightarrow> check_error + unit" where
  "check_instrs cfg program fullsig pc =
     (if pc < length program then
        (case check_instr cfg program fullsig pc of
           Inl e \<Rightarrow> Inl e
         | Inr _ \<Rightarrow> check_instrs cfg program fullsig (pc + 4))
      else Inr ())"
  by pat_completeness auto
termination
  by (relation "measure (\<lambda>(cfg, p, fs, pc). length p - pc)") auto

declare check_instrs.simps [simp del]

text \<open>
  A \<^verbatim>\<open>NumExprObject\<close>. The three strings are Python objects; \<open>None\<close> is an object
  that \<^verbatim>\<open>PyString_AsStringAndSize\<close> cannot read.
\<close>

record NumExprObject =
  program :: "byte list option"
  fullsig :: "string option"
  signature :: "string option"
  n_inputs :: nat
  n_constants :: nat
  n_temps :: nat
  memsizes :: "nat list"

text \<open>\<^verbatim>\<open>check_program\<close>: \<open>Inr ()\<close> is the return value 0, \<open>Inl e\<close> is -1 with the error \<open>e\<close> set.\<close>

definition check_program :: "isa \<Rightarrow> NumExprObject \<Rightarrow> check_error + unit" where
  "check_program cfg self =
     (case program self of
        None \<Rightarrow> Inl CantReadProgram
      | Some prog \<Rightarrow>
          if length prog mod 4 \<noteq> 0 then Inl ProgLenMod4
          else
            (case fullsig self of
               None \<Rightarrow> Inl CantReadFullsig
             | Some fs \<Rightarrow>
                 (case signature self of
                    None \<Rightarrow> Inl CantReadSignature
                  | Some sg \<Rightarrow>
                      if length fs > 255 then Inl TooManyBuffers
                      else check_instrs cfg prog fs 0)))"

subsection \<open>The parallel engine: vm_engine_iter_parallel\<close>

text \<open>
  \<^verbatim>\<open>vm_engine_iter_parallel\<close> fills the global \<^verbatim>\<open>th_params\<close>, makes one copy of the
  iterator and one of the \<^verbatim>\<open>memsteps\<close> table for each additional thread, meets the
  worker threads at two barriers and releases the copies. The model keeps the two arrays
  of \<^verbatim>\<open>th_params\<close> that the function allocates into, and records every call of
  \<^verbatim>\<open>NpyIter_Deallocate\<close> and \<^verbatim>\<open>PyMem_Del\<close> with the pointer it is given. The fields
  of \<^verbatim>\<open>th_params\<close> that only the worker threads read (\<^verbatim>\<open>start\<close>, \<^verbatim>\<open>vlen\<close>,
  \<^verbatim>\<open>block_size\<close>, \<^verbatim>\<open>params\<close>, \<^verbatim>\<open>pc_error\<close>, \<^verbatim>\<open>errmsg\<close>) are left out.

  An iterator is the caller's or the copy made for thread \<open>i\<close>; likewise a table.
  \<open>None\<close> in a slot is \<^verbatim>\<open>NULL\<close>.
\<close>

datatype iter_ref = CallerIter | IterCopy nat

datatype memsteps_ref = CallerMemsteps | MemstepsCopy nat

record thread_data =
  th_iter :: "nat \<Rightarrow> iter_ref option"
  th_memsteps :: "nat \<Rightarrow> memsteps_ref option"
  th_ret_code :: int
  deallocated :: "iter_ref option list"
  deleted :: "memsteps_ref option list"
  barriers_passed :: bool

text \<open>
  What the model cannot compute: whether \<^verbatim>\<open>NpyIter_Copy\<close> and \<^verbatim>\<open>PyMem_New\<close> succeed
  for thread \<open>i\<close>, and the \<^verbatim>\<open>ret_code\<close> the worker threads leave in
  \<^verbatim>\<open>th_params\<close> between the two barriers.
\<close>

record host_alloc =
  copy_ok :: "nat \<Rightarrow> bool"
  new_ok :: "nat \<Rightarrow> bool"
  worker_ret_code :: int

definition NpyIter_Deallocate :: "nat \<Rightarrow> thread_data \<Rightarrow> thread_data" where
  "NpyIter_Deallocate i t = t\<lparr>deallocated := deallocated t @ [th_iter t i]\<rparr>"

definition PyMem_Del :: "nat \<Rightarrow> thread_data \<Rightarrow> thread_data" where
  "PyMem_Del i t = t\<lparr>deleted := deleted t @ [th_memsteps t i]\<rparr>"

text \<open>\<^verbatim>\<open>for (; i > 0; --i) NpyIter_Deallocate(th_params.iter[i]);\<close> and its twin.\<close>

fun dealloc_iters_down :: "nat \<Rightarrow> thread_data \<Rightarrow> thread_data" where
  "dealloc_iters_down 0 t = t"
| "dealloc_iters_down (Suc i) t = dealloc_iters_down i (NpyIter_Deallocate (Suc i) t)"

fun del_memsteps_down :: "nat \<Rightarrow> thread_data \<Rightarrow> thread_data" where
  "del_memsteps_down 0 t = t"
| "del_memsteps_down (Suc i) t = del_memsteps_down i (PyMem_Del (Suc i) t)"

text \<open>
  The first loop, from \<open>i\<close> on: a failed copy leaves \<^verbatim>\<open>NULL\<close> in slot \<open>i\<close>, steps
  \<open>i\<close> back by one and releases downwards. \<open>False\<close> is the \<^verbatim>\<open>return -1\<close>.
\<close>

function copy_iters :: "host_alloc \<Rightarrow> nat \<Rightarrow> nat \<Rightarrow> thread_data \<Rightarrow> bool \<times> thread_data" where
  "copy_iters h nthreads i t =
     (if i < nthreads then
        (if copy_ok h i
         then copy_iters h nthreads (Suc i) (t\<lparr>th_iter := (th_iter t)(i := Some (IterCopy i))\<rparr>)
         else (False, dealloc_iters_down (i - 1) (t\<lparr>th_iter := (th_iter t)(i := None)\<rparr>)))
      else (True, t))"
  by pat_completeness auto
termination
  by (relation "measure (\<lambda>(h, n, i, t). n - i)") auto

declare copy_iters.simps [simp del]

text \<open>
  The second loop. When an allocation fails, the tables made so far are deleted downwards
  and then \<^verbatim>\<open>for (i = 0; i < gs.nthreads; ++i) NpyIter_Deallocate(th_params.iter[i]);\<close>
  runs, from slot 0.
\<close>

function copy_memsteps :: "host_alloc \<Rightarrow> nat \<Rightarrow> nat \<Rightarrow> thread_data \<Rightarrow> bool \<times> thread_data" where
  "copy_memsteps h nthreads i t =
     (if i < nthreads then
        (if new_ok h i
         then copy_memsteps h nthreads (Suc i)
                (t\<lparr>th_memsteps := (th_memsteps t)(i := Some (MemstepsCopy i))\<rparr>)
         else (False,
               fold NpyIter_Deallocate [0..<nthreads]
                 (del_memsteps_down (i - 1) (t\<lparr>th_memsteps := (th_memsteps t)(i := None)\<rparr>))))
      else (True, t))"
  by pat_completeness auto
termination
  by (relation "measure (\<lambda>(h, n, i, t). n - i)") auto

declare copy_memsteps.simps [simp del]

text \<open>
  The whole function. \<open>errmsg_null\<close> is \<^verbatim>\<open>errmsg == NULL\<close>. Between the loops and the
  release lie the two barriers, during which the worker threads run.
\<close>

definition vm_engine_iter_parallel ::
  "host_alloc \<Rightarrow> nat \<Rightarrow> bool \<Rightarrow> thread_data \<Rightarrow> int \<times> thread_data"
where
  "vm_engine_iter_parallel h nthreads errmsg_null t =
     (if errmsg_null then (- 1, t)
      else
        let t1 = t\<lparr>th_ret_code := 0, th_iter := (th_iter t)(0 := Some CallerIter)\<rparr> in
        (case copy_iters h nthreads 1 t1 of
           (False, t2) \<Rightarrow> (- 1, t2)
         | (True, t2) \<Rightarrow>
             let t3 = t2\<lparr>th_memsteps := (th_memsteps t2)(0 := Some CallerMemsteps)\<rparr> in
             (case copy_memsteps h nthreads 1 t3 of
                (False, t4) \<Rightarrow> (- 1, t4)
              | (True, t4) \<Rightarrow>
                  let t5 = t4\<lparr>barriers_passed := True, th_ret_code := worker_ret_code h\<rparr>;
                      t6 = fold (\<lambda>i. PyMem_Del i \<circ> NpyIter_Deallocate i) [1..<nthreads] t5
                  in (th_ret_code t6, t6))))"

text \<open>\<^verbatim>\<open>th_params\<close> before a call: nothing allocated, nothing released.\<close>

definition th_params0 :: thread_data where
  "th_params0 =
     \<lparr>th_iter = (\<lambda>_. None), th_memsteps = (\<lambda>_. None), th_ret_code = 0,
      deallocated = [], deleted = [], barriers_passed = False\<rparr>"

subsection \<open>The drivers: vm_engine_iter_task and vm_engine_iter_outer_reduce_task\<close>

text \<open>
  \<^verbatim>\<open>BOUNDS_CHECK(arg)\<close> inside the body of the interpreter: when the register index is
  not below \<^verbatim>\<open>params.r_end\<close> it stores \<open>pc\<close> in \<^verbatim>\<open>*pc_error\<close> and makes the
  enclosing function return -2. \<open>Some (r, pc)\<close> is that return, \<open>None\<close> falls through.
\<close>

definition BOUNDS_CHECK :: "int \<Rightarrow> int \<Rightarrow> int \<Rightarrow> (int \<times> int) option" where
  "BOUNDS_CHECK arg r_end pc = (if arg \<ge> r_end then Some (- 2, pc) else None)"

text \<open>
  The drivers include \<^verbatim>\<open>interp_body.cpp\<close>, which is not among the sources, once per
  loop. The model takes the included text as a parameter: a function of \<^verbatim>\<open>BLOCK_SIZE\<close>
  that says whether the block makes the driver return early, and then with which status
  and which \<^verbatim>\<open>*pc_error\<close>. What a block writes into the registers is not modelled.
\<close>

type_synonym block_body = "int \<Rightarrow> (int \<times> int) option"

text \<open>
  What the drivers ask of a NumPy iterator, which is outside the repository:
  whether \<^verbatim>\<open>NpyIter_GetIterNext\<close> yields a function, the values \<^verbatim>\<open>*size_ptr\<close> takes
  block after block (0 once the iterator is exhausted), and for \<^verbatim>\<open>NumExpr_run\<close> and
  \<^verbatim>\<open>run_interpreter\<close> the results of \<^verbatim>\<open>NpyIter_GetIterSize\<close>, \<^verbatim>\<open>NpyIter_Reset\<close>,
  \<^verbatim>\<open>NpyIter_ResetBasePointers\<close>, the message a failing call leaves in
  \<^verbatim>\<open>*errmsg\<close>, and operand 0. Of an array the model keeps the shape, the type,
  the data pointer and whether it is writeable.
\<close>

record ndarray =
  dims :: "nat list"
  descr :: npy_type
  data :: nat
  writeable :: bool

record npy_iter =
  get_iternext_ok :: bool
  inner_sizes :: "int list"
  iter_size :: int
  reset_ok :: bool
  reset_base_ret :: int
  errmsg_text :: string
  operand0 :: ndarray

definition size_ptr :: "int list \<Rightarrow> int" where
  "size_ptr bs = (case bs of [] \<Rightarrow> 0 | b # _ \<Rightarrow> b)"

text \<open>
  The loop \<^verbatim>\<open>while (block_size == BLOCK_SIZE1)\<close> over the blocks that remain: \<open>Inl\<close> is
  an early return of the body, \<open>Inr\<close> the blocks left when a block of another size is met.
  Once the iterator is exhausted \<^verbatim>\<open>*size_ptr\<close> stays 0, so with \<^verbatim>\<open>BLOCK_SIZE1\<close> = 0 the
  loop would not end unless the body returns: that is \<open>None\<close>.
\<close>

fun full_blocks :: "isa \<Rightarrow> block_body \<Rightarrow> int list \<Rightarrow> ((int \<times> int) + int list) option" where
  "full_blocks cfg body [] =
     (if 0 = BLOCK_SIZE1 cfg
      then (case body (BLOCK_SIZE1 cfg) of Some st \<Rightarrow> Some (Inl st) | None \<Rightarrow> None)
      else Some (Inr []))"
| "full_blocks cfg body (b # bs) =
     (if b = BLOCK_SIZE1 cfg
      then (case body (BLOCK_SIZE1 cfg) of Some st \<Rightarrow> Some (Inl st) | None \<Rightarrow> full_blocks cfg body bs)
      else Some (Inr (b # bs)))"

text \<open>
  \<^verbatim>\<open>do { ... } while (iternext(iter));\<close> with the variable \<^verbatim>\<open>block_size\<close>, which the
  loop does not read again: the body runs once for the current block and once for every
  block that follows.
\<close>

fun rest_blocks :: "block_body \<Rightarrow> int \<Rightarrow> int list \<Rightarrow> (int \<times> int) option" where
  "rest_blocks body block_size [] = body block_size"
| "rest_blocks body block_size [b] = body block_size"
| "rest_blocks body block_size (b # b' # bs) =
     (case body block_size of Some st \<Rightarrow> Some st | None \<Rightarrow> rest_blocks body block_size (b' # bs))"

text \<open>
  The result of a driver: the status it returns, the value it leaves in \<^verbatim>\<open>*pc_error\<close>
  and in \<^verbatim>\<open>*errmsg\<close> (\<open>None\<close>: left as it was). \<open>None\<close> for the whole result is a call
  that does not return.
\<close>

record engine_result =
  er_status :: int
  er_pc_error :: "int option"
  er_errmsg :: "string option"

definition vm_engine_iter_task :: "isa \<Rightarrow> block_body \<Rightarrow> npy_iter \<Rightarrow> engine_result option" where
  "vm_engine_iter_task cfg body it =
     (if \<not> get_iternext_ok it
      then Some \<lparr>er_status = - 1, er_pc_error = None, er_errmsg = Some (errmsg_text it)\<rparr>
      else
        (case full_blocks cfg body (inner_sizes it) of
           None \<Rightarrow> None
         | Some (Inl (r, pc)) \<Rightarrow> Some \<lparr>er_status = r, er_pc_error = Some pc, er_errmsg = None\<rparr>
         | Some (Inr rest) \<Rightarrow>
             let block_size = size_ptr rest in
             if block_size > 0 then
               (case rest_blocks body block_size rest of
                  Some (r, pc) \<Rightarrow> Some \<lparr>er_status = r, er_pc_error = Some pc, er_errmsg = None\<rparr>
                | None \<Rightarrow> Some \<lparr>er_status = 0, er_pc_error = None, er_errmsg = None\<rparr>)
             else Some \<lparr>er_status = 0, er_pc_error = None, er_errmsg = None\<rparr>))"

text \<open>
  \<^verbatim>\<open>vm_engine_iter_outer_reduce_task\<close> is the same text with the body included under
  \<^verbatim>\<open>NO_OUTPUT_BUFFERING\<close> instead of \<^verbatim>\<open>REDUCTION_INNER_LOOP\<close>: the same function of
  another body.
\<close>

definition vm_engine_iter_outer_reduce_task ::
  "isa \<Rightarrow> block_body \<Rightarrow> npy_iter \<Rightarrow> engine_result option"
where
  "vm_engine_iter_outer_reduce_task cfg body it = vm_engine_iter_task cfg body it"

subsection \<open>run_interpreter\<close>

text \<open>
  The Python error indicator. The two messages that print a program counter carry it; an
  error that the Python or NumPy API sets by itself is \<open>ApiError\<close>.
\<close>

datatype py_error =
    ValueError string
  | TypeError string
  | RuntimeError string
  | BadArgumentAtPc int
  | BadOpcodeAtPc int
  | ApiError

text \<open>The calls that make the virtual machine run, recorded in the order they are made.\<close>

datatype engine_call =
  SerialTask | OuterReduceTask | InnerReduceTask | ParallelEngine | ConstantBlock

record global_state =
  nthreads :: nat
  force_serial :: bool

text \<open>
  The text of \<^verbatim>\<open>interp_body.cpp\<close> under the three sets of macros it is included with,
  and what the worker threads leave in \<^verbatim>\<open>*th_params.pc_error\<close> and
  \<^verbatim>\<open>*th_params.errmsg\<close>.
\<close>

record bodies =
  body_task :: block_body
  body_outer_reduce :: block_body
  body_const :: block_body
  worker_pc_error :: "int option"
  worker_errmsg :: "string option"

text \<open>
  One turn of the loops over the outer iterator: \<^verbatim>\<open>NpyIter_ResetBasePointers\<close>, then
  the driver when its result is not negative. Every turn is the same function of the same
  arguments here, since the data is not modelled.
\<close>

definition reduce_step :: "(npy_iter \<Rightarrow> engine_result option) \<Rightarrow> npy_iter \<Rightarrow> engine_result option" where
  "reduce_step engine inner =
     (let r = reset_base_ret inner;
          msg = (if r = 1 then None else Some (errmsg_text inner)) in
      if r \<ge> 0 then
        (case engine inner of
           None \<Rightarrow> None
         | Some e \<Rightarrow> Some (e\<lparr>er_errmsg := (case er_errmsg e of None \<Rightarrow> msg | Some m \<Rightarrow> Some m)\<rparr>))
      else Some \<lparr>er_status = r, er_pc_error = None, er_errmsg = msg\<rparr>)"

text \<open>
  \<^verbatim>\<open>do { ...; if (r < 0) break; } while (iternext(outer));\<close> over the positions of the
  outer iterator.
\<close>

fun reduce_loop :: "engine_result option \<Rightarrow> int list \<Rightarrow> engine_result option" where
  "reduce_loop step (b # b' # bs) =
     (case step of
        None \<Rightarrow> None
      | Some e \<Rightarrow> if er_status e < 0 then Some e else reduce_loop step (b' # bs))"
| "reduce_loop step _ = step"

record interp_result =
  ir_return :: int
  ir_pc_error :: int
  ir_raised :: "py_error option"
  ir_calls :: "engine_call list"

text \<open>
  The end of \<^verbatim>\<open>run_interpreter\<close>:
  \<^verbatim>\<open>if (r < 0 && errmsg != NULL) PyErr_SetString(PyExc_RuntimeError, errmsg); return 0;\<close>
\<close>

definition run_interpreter_end :: "engine_call list \<Rightarrow> engine_result option \<Rightarrow> interp_result option" where
  "run_interpreter_end cs eo =
     (case eo of
        None \<Rightarrow> None
      | Some e \<Rightarrow>
          Some \<lparr>ir_return = 0,
                ir_pc_error = (case er_pc_error e of None \<Rightarrow> - 1 | Some pc \<Rightarrow> pc),
                ir_raised =
                  (if er_status e < 0
                   then (case er_errmsg e of None \<Rightarrow> None | Some m \<Rightarrow> Some (RuntimeError m))
                   else None),
                ir_calls = cs\<rparr>)"

definition early_return :: "interp_result option" where
  "early_return =
     Some \<lparr>ir_return = - 1, ir_pc_error = - 1, ir_raised = Some ApiError, ir_calls = []\<rparr>"

definition no_parallel_reduction :: string where
  "no_parallel_reduction = ''Parallel engine doesn't support reduction yet''"

text \<open>
  \<^verbatim>\<open>run_interpreter\<close>. The temporaries (\<^verbatim>\<open>get_temps_space\<close>, whose result the source
  drops, and \<^verbatim>\<open>free_temps_space\<close>) and the output buffer are data and not modelled.
  \<open>None\<close> is a call that does not return.
\<close>

definition run_interpreter ::
  "isa \<Rightarrow> global_state \<Rightarrow> host_alloc \<Rightarrow> bodies \<Rightarrow> NumExprObject \<Rightarrow> npy_iter \<Rightarrow> npy_iter option
     \<Rightarrow> bool \<Rightarrow> interp_result option"
where
  "run_interpreter cfg gs h bd self it reduce_iter reduction_outer_loop =
     (case NumExprObject.program self of
        None \<Rightarrow> early_return
      | Some prog \<Rightarrow>
          if nthreads gs = 1 \<or> force_serial gs then
            (case reduce_iter of
               None \<Rightarrow>
                 if \<not> reset_ok it then early_return
                 else run_interpreter_end [SerialTask] (vm_engine_iter_task cfg (body_task bd) it)
             | Some rit \<Rightarrow>
                 if reduction_outer_loop then
                   (if \<not> get_iternext_ok rit then early_return
                    else run_interpreter_end [OuterReduceTask]
                           (reduce_loop
                              (reduce_step
                                 (vm_engine_iter_outer_reduce_task cfg (body_outer_reduce bd)) it)
                              (inner_sizes rit)))
                 else
                   (if \<not> get_iternext_ok it then early_return
                    else run_interpreter_end [InnerReduceTask]
                           (reduce_loop
                              (reduce_step (vm_engine_iter_task cfg (body_task bd)) rit)
                              (inner_sizes it))))
          else
            (case reduce_iter of
               None \<Rightarrow>
                 (case vm_engine_iter_parallel h (nthreads gs) False th_params0 of
                    (r, t) \<Rightarrow>
                      run_interpreter_end [ParallelEngine]
                        (Some \<lparr>er_status = r,
                               er_pc_error = (if barriers_passed t then worker_pc_error bd else None),
                               er_errmsg = (if barriers_passed t then worker_errmsg bd else None)\<rparr>))
             | Some rit \<Rightarrow>
                 run_interpreter_end []
                   (Some \<lparr>er_status = - 1, er_pc_error = None,
                          er_errmsg = Some no_parallel_reduction\<rparr>)))"

text \<open>
  \<^verbatim>\<open>run_interpreter_const\<close>: one block of one item. Its result is the status and
  \<^verbatim>\<open>*pc_error\<close>.
\<close>

definition run_interpreter_const :: "bodies \<Rightarrow> NumExprObject \<Rightarrow> int \<times> int" where
  "run_interpreter_const bd self =
     (case NumExprObject.program self of
        None \<Rightarrow> (- 1, - 1)
      | Some prog \<Rightarrow>
          if n_inputs self \<noteq> 0 then (- 1, - 1)
          else (case body_const bd 1 of Some (r, pc) \<Rightarrow> (r, pc) | None \<Rightarrow> (0, - 1)))"

subsection \<open>NumExpr_run\<close>

text \<open>
  The arguments of a call. A positional argument is an array, or another object with what
  \<^verbatim>\<open>PyArray_FROM_OTF\<close> makes of it (\<open>None\<close>: the conversion fails). The keyword
  dictionary, when there is one, says whether \<^verbatim>\<open>casting\<close> and \<^verbatim>\<open>order\<close> convert
  (an absent key converts), the value of \<^verbatim>\<open>ex_uses_vml\<close> (\<open>None\<close>: the key is missing)
  and what \<^verbatim>\<open>out\<close> is.
\<close>

datatype pyobj = ArrayObj ndarray | OtherObj "ndarray option"

datatype out_kw = OutAbsent | OutNone | OutNotArray | OutArray ndarray

record kwargs =
  kw_casting_ok :: bool
  kw_order_ok :: bool
  kw_ex_uses_vml :: "bool option"
  kw_out :: out_kw

text \<open>
  What the NumPy API answers during a call: the data pointer of an array that
  \<^verbatim>\<open>PyArray_SimpleNew\<close> or \<^verbatim>\<open>PyArray_FromArray\<close> makes (\<open>None\<close>: the call fails) and
  the results of the first and the second \<^verbatim>\<open>NpyIter_AdvancedNew\<close>.
\<close>

record numpy_api =
  NPY_MAXARGS :: nat
  simple_new :: "nat option"
  from_array :: "nat option"
  advanced_new :: "npy_iter option"
  advanced_new_reduce :: "npy_iter option"

text \<open>
  The result of a call: the object returned (\<open>None\<close> is \<^verbatim>\<open>NULL\<close>), the error
  indicator at the return, and in the order they happen the fill of the output with a
  scalar (\<^verbatim>\<open>PyArray_FillWithScalar\<close>) and the calls that run the virtual machine.
\<close>

datatype event = Fill int | Call engine_call

record run_result =
  ret :: "ndarray option"
  raised :: "py_error option"
  trace :: "event list"

text \<open>
  A call ends with a result, runs into behaviour that C leaves undefined (a read outside
  the program, a \<^verbatim>\<open>NULL\<close> pointer passed to \<^verbatim>\<open>PyArray_DATA\<close>), or does not return.
\<close>

datatype run_outcome = Done run_result | UndefinedBehaviour | DoesNotReturn

definition fails :: "py_error \<Rightarrow> run_outcome" where
  "fails e = Done \<lparr>ret = None, raised = Some e, trace = []\<rparr>"

definition PyArray_SIZE :: "ndarray \<Rightarrow> nat" where
  "PyArray_SIZE a = prod_list (dims a)"

definition PyArray_NDIM :: "ndarray \<Rightarrow> nat" where
  "PyArray_NDIM a = length (dims a)"

text \<open>
  The keyword dictionary: \<open>Inl\<close> leaves \<^verbatim>\<open>NumExpr_run\<close>, \<open>Inr\<close> is \<^verbatim>\<open>operands[0]\<close>.
\<close>

definition read_kwds :: "kwargs option \<Rightarrow> run_outcome + ndarray option" where
  "read_kwds kwds =
     (case kwds of
        None \<Rightarrow> Inr None
      | Some kw \<Rightarrow>
          if \<not> kw_casting_ok kw then Inl (fails ApiError)
          else if \<not> kw_order_ok kw then Inl (fails ApiError)
          else if kw_ex_uses_vml kw = None
          then Inl (fails (ValueError ''ex_uses_vml parameter is required''))
          else
            (case kw_out kw of
               OutAbsent \<Rightarrow> Inr None
             | OutNone \<Rightarrow> Inr None
             | OutNotArray \<Rightarrow> Inl (fails (ValueError ''out keyword parameter is not an array''))
             | OutArray a \<Rightarrow> Inr (Some a)))"

text \<open>
  The loop over the inputs: the operands converted so far are \<open>acc\<close>,
  \<open>nob\<close> is \<^verbatim>\<open>need_output_buffering\<close>. The data pointer of the operand is compared
  with that of \<^verbatim>\<open>out\<close> before the operand is tested for \<^verbatim>\<open>NULL\<close>.
\<close>

fun convert_inputs ::
  "string \<Rightarrow> pyobj list \<Rightarrow> ndarray option \<Rightarrow> bool \<Rightarrow> ndarray list
     \<Rightarrow> run_outcome + (ndarray list \<times> bool)"
where
  "convert_inputs (c # cs) (ob # obs) op0 nob acc =
     (let typecode = typecode_from_char c in
      if (case ob of ArrayObj _ \<Rightarrow> False | OtherObj _ \<Rightarrow> True) \<and> typecode = None
      then Inl (fails (TypeError (''signature value not in 'bilfdcs'' @ [CHR 0x27])))
      else
        let a = (case ob of ArrayObj x \<Rightarrow> Some x | OtherObj conv \<Rightarrow> conv) in
        if op0 \<noteq> None \<and> a = None then Inl UndefinedBehaviour
        else
          (case a of
             None \<Rightarrow> Inl (fails ApiError)
           | Some y \<Rightarrow>
               if typecode = None then Inl (fails ApiError)
               else convert_inputs cs obs op0
                      (nob \<or> (case op0 of None \<Rightarrow> False | Some x \<Rightarrow> data x = data y))
                      (acc @ [y])))"
| "convert_inputs _ _ op0 nob acc = Inr (acc, nob)"

text \<open>
  The size of the reduction axis in one operand of \<open>ndim\<close> dimensions, when the axis is
  one of its own.
\<close>

definition axis_size :: "nat \<Rightarrow> nat \<Rightarrow> ndarray \<Rightarrow> nat option" where
  "axis_size oa_ndim reduction_axis a =
     (let lead = oa_ndim - PyArray_NDIM a in
      if lead \<le> reduction_axis \<and> reduction_axis < oa_ndim
      then Some (dims a ! (reduction_axis - lead)) else None)"

definition max_axis_size :: "nat \<Rightarrow> nat \<Rightarrow> ndarray list \<Rightarrow> nat" where
  "max_axis_size oa_ndim reduction_axis inputs =
     fold (\<lambda>a reduction_size.
             case axis_size oa_ndim reduction_axis a of
               None \<Rightarrow> reduction_size
             | Some sz \<Rightarrow> if sz > reduction_size then sz else reduction_size)
       inputs 1"

text \<open>
  The branch \<^verbatim>\<open>if (is_reduction)\<close>: the result is \<^verbatim>\<open>operands[0]\<close>,
  \<^verbatim>\<open>oa_ndim\<close> and \<^verbatim>\<open>reduction_size\<close>. The branch does not test
  \<^verbatim>\<open>dtypes[0]\<close>, so for a return signature outside \<^verbatim>\<open>bilfdcs\<close> it goes on with the
  error of \<^verbatim>\<open>PyArray_DescrFromType\<close> pending: the last component.
\<close>

definition reduction_setup ::
  "isa \<Rightarrow> numpy_api \<Rightarrow> byte list \<Rightarrow> char \<Rightarrow> ndarray list \<Rightarrow> ndarray option
     \<Rightarrow> run_outcome + (ndarray option \<times> nat \<times> nat \<times> py_error option)"
where
  "reduction_setup cfg api prog retsig inputs op0 =
     (case get_reduction_axis cfg prog of
        None \<Rightarrow> Inl UndefinedBehaviour
      | Some reduction_axis \<Rightarrow>
          let full = fold (\<lambda>a m. if PyArray_NDIM a > m then PyArray_NDIM a else m) inputs 0 in
          if reduction_axis \<noteq> 255 \<and> (reduction_axis < 0 \<or> reduction_axis \<ge> int full)
          then Inl (fails (ValueError ''reduction axis is out of bounds''))
          else
            let oa_ndim = (if reduction_axis \<noteq> 255 then full - 1 else 0);
                reduction_size =
                  (if reduction_axis \<noteq> 255 \<and> oa_ndim > 0
                   then max_axis_size full (nat reduction_axis) inputs else 1);
                pending = (if typecode_from_char retsig = None then Some ApiError else None) in
            if oa_ndim = 0 then
              (case op0 of
                 None \<Rightarrow>
                   (case (typecode_from_char retsig, simple_new api) of
                      (Some t, Some p) \<Rightarrow>
                        Inr (Some \<lparr>dims = [], descr = t, data = p, writeable = True\<rparr>,
                             oa_ndim, reduction_size, pending)
                    | _ \<Rightarrow> Inl (fails ApiError))
               | Some a \<Rightarrow>
                   if PyArray_SIZE a \<noteq> 1
                   then Inl (fails (ValueError
                          ''out argument must have size 1 for a full reduction''))
                   else Inr (op0, oa_ndim, reduction_size, pending))
            else Inr (op0, oa_ndim, reduction_size, pending))"

text \<open>
  The check for empty arrays: the first input of size 0, if there is one, gives the new
  output its shape.
\<close>

definition empty_input :: "ndarray list \<Rightarrow> ndarray option" where
  "empty_input inputs = find (\<lambda>a. PyArray_SIZE a = 0) inputs"

definition empty_result :: "numpy_api \<Rightarrow> char \<Rightarrow> ndarray \<Rightarrow> run_outcome" where
  "empty_result api retsig z =
     (case typecode_from_char retsig of
        None \<Rightarrow> fails ApiError
      | Some t \<Rightarrow>
          (case simple_new api of
             None \<Rightarrow> fails ApiError
           | Some p \<Rightarrow>
               Done \<lparr>ret = Some \<lparr>dims = dims z, descr = t, data = p, writeable = True\<rparr>,
                     raised = None, trace = []\<rparr>))"

text \<open>
  The case of a single constant output, \<^verbatim>\<open>if (n_inputs == 0)\<close>. The status of
  \<^verbatim>\<open>run_interpreter_const\<close> is assigned to \<^verbatim>\<open>r\<close> and not read.
\<close>

definition constant_result ::
  "numpy_api \<Rightarrow> bodies \<Rightarrow> NumExprObject \<Rightarrow> char \<Rightarrow> ndarray option \<Rightarrow> py_error option
     \<Rightarrow> run_outcome"
where
  "constant_result api bd self retsig op0 pending =
     (case op0 of
        None \<Rightarrow>
          (case (typecode_from_char retsig, simple_new api) of
             (Some t, Some p) \<Rightarrow>
               (case run_interpreter_const bd self of
                  (r, pc_error) \<Rightarrow>
                    Done \<lparr>ret = Some \<lparr>dims = [], descr = t, data = p, writeable = True\<rparr>,
                          raised = pending, trace = [Call ConstantBlock]\<rparr>)
           | _ \<Rightarrow> fails ApiError)
      | Some a \<Rightarrow>
          if PyArray_SIZE a \<noteq> 1
          then fails (ValueError ''output for a constant expression must have size 1'')
          else if \<not> writeable a then fails (ValueError ''output is not writeable'')
          else
            (case from_array api of
               None \<Rightarrow> fails ApiError
             | Some p \<Rightarrow>
                 (case run_interpreter_const bd self of
                    (r, pc_error) \<Rightarrow>
                      Done \<lparr>ret = Some (a\<lparr>data := p\<rparr>), raised = pending,
                            trace = [Call ConstantBlock]\<rparr>)))"

text \<open>
  The allocation of the iterators: the result is \<^verbatim>\<open>iter\<close>, \<^verbatim>\<open>reduce_iter\<close> and
  \<^verbatim>\<open>reduction_outer_loop\<close>.
\<close>

definition make_iterators ::
  "numpy_api \<Rightarrow> nat \<Rightarrow> run_outcome + (npy_iter \<times> npy_iter option \<times> bool)"
where
  "make_iterators api reduction_size =
     (case advanced_new api of
        None \<Rightarrow> Inl (fails ApiError)
      | Some it \<Rightarrow>
          if reduction_size = 1 then Inr (it, None, False)
          else
            (case advanced_new_reduce api of
               None \<Rightarrow> Inl (fails ApiError)
             | Some rit \<Rightarrow> Inr (it, Some rit, reduction_size < 64)))"

text \<open>The scalar of \<^verbatim>\<open>PyArray_FillWithScalar\<close> for a program whose last opcode is \<open>op\<close>.\<close>

definition reduction_unit :: "isa \<Rightarrow> int \<Rightarrow> int" where
  "reduction_unit cfg op = (if op \<ge> OP_SUM cfg \<and> op < OP_PROD cfg then 0 else 1)"

text \<open>
  The end of \<^verbatim>\<open>NumExpr_run\<close>: the status \<open>r\<close> of \<^verbatim>\<open>run_interpreter\<close> is turned into
  an error, or the output of the iterator is returned. \<open>pending\<close> is the error indicator
  after \<^verbatim>\<open>run_interpreter\<close>.
\<close>

definition report_status :: "int \<Rightarrow> int \<Rightarrow> py_error option \<Rightarrow> npy_iter \<Rightarrow> event list \<Rightarrow> run_result" where
  "report_status r pc_error pending it tr =
     (if r < 0 then
        \<lparr>ret = None,
         raised =
           (if r = - 1 then
              (case pending of
                 None \<Rightarrow> Some (RuntimeError ''an error occurred while running the program'')
               | Some e \<Rightarrow> Some e)
            else if r = - 2 then Some (BadArgumentAtPc pc_error)
            else if r = - 3 then Some (BadOpcodeAtPc pc_error)
            else Some (RuntimeError ''unknown error occurred while running the program'')),
         trace = tr\<rparr>
      else \<lparr>ret = Some (operand0 it), raised = pending, trace = tr\<rparr>)"

text \<open>
  From the allocation of the iterators to the end: the fill of a reduction's output, the
  two tests that force serial execution, the call of \<^verbatim>\<open>run_interpreter\<close>.
\<close>

definition iterate ::
  "isa \<Rightarrow> numpy_api \<Rightarrow> nat \<Rightarrow> host_alloc \<Rightarrow> bodies \<Rightarrow> NumExprObject \<Rightarrow> bool \<Rightarrow> int \<Rightarrow> nat
     \<Rightarrow> py_error option \<Rightarrow> run_outcome"
where
  "iterate cfg api nthr h bd self is_reduction last_op reduction_size pending =
     (case make_iterators api reduction_size of
        Inl out \<Rightarrow> out
      | Inr (it, reduce_iter, reduction_outer_loop) \<Rightarrow>
          let fill = (if is_reduction then [Fill (reduction_unit cfg last_op)] else []);
              gs = \<lparr>nthreads = nthr,
                    force_serial = (iter_size it < 2 * BLOCK_SIZE1 cfg \<or> is_reduction)\<rparr> in
          (case run_interpreter cfg gs h bd self it reduce_iter reduction_outer_loop of
             None \<Rightarrow> DoesNotReturn
           | Some res \<Rightarrow>
               Done (report_status (ir_return res) (ir_pc_error res)
                       (case ir_raised res of None \<Rightarrow> pending | Some e \<Rightarrow> Some e) it
                       (fill @ map Call (ir_calls res)))))"

text \<open>
  \<^verbatim>\<open>NumExpr_run\<close>. \<open>sg\<close> is the sign of \<^verbatim>\<open>char\<close>, \<open>nthr\<close> is
  \<^verbatim>\<open>gs.nthreads\<close>; \<^verbatim>\<open>operands[0]\<close> is \<open>op0\<close>.
\<close>

definition NumExpr_run ::
  "isa \<Rightarrow> bool \<Rightarrow> numpy_api \<Rightarrow> nat \<Rightarrow> host_alloc \<Rightarrow> bodies \<Rightarrow> NumExprObject
     \<Rightarrow> pyobj list \<Rightarrow> kwargs option \<Rightarrow> run_outcome"
where
  "NumExpr_run cfg sg api nthr h bd self args kwds =
     (case NumExprObject.program self of
        None \<Rightarrow> UndefinedBehaviour
      | Some prog \<Rightarrow>
     (case last_opcode prog of
        None \<Rightarrow> UndefinedBehaviour
      | Some last_op \<Rightarrow>
     (case signature self of
        None \<Rightarrow> fails (ValueError ''number of inputs doesn't match program'')
      | Some sig \<Rightarrow>
      if length sig \<noteq> length args
      then fails (ValueError ''number of inputs doesn't match program'')
      else if length args + 1 > NPY_MAXARGS api then fails (ValueError ''too many inputs'')
      else
     (case read_kwds kwds of
        Inl out \<Rightarrow> out
      | Inr op0 \<Rightarrow>
     (case convert_inputs sig args op0 False [] of
        Inl out \<Rightarrow> out
      | Inr (inputs, need_output_buffering) \<Rightarrow>
     (let is_reduction = (last_op > OP_REDUCTION cfg);
          retsig = get_return_sig cfg sg prog in
      case (if is_reduction then reduction_setup cfg api prog retsig inputs op0
            else if retsig \<noteq> CHR ''s'' \<and> typecode_from_char retsig = None
            then Inl (fails ApiError)
            else Inr (op0, 0, 1, None)) of
        Inl out \<Rightarrow> out
      | Inr (op0', oa_ndim, reduction_size, pending) \<Rightarrow>
          if inputs \<noteq> [] then
            (case empty_input inputs of
               Some z \<Rightarrow> empty_result api retsig z
             | None \<Rightarrow>
                 iterate cfg api nthr h bd self is_reduction last_op reduction_size pending)
          else constant_result api bd self retsig op0' pending))))))"

section \<open>Definitions used to state and run the properties\<close>

subsection \<open>A concrete instruction set\<close>

text \<open>
  Modelled from the spec: \<^verbatim>\<open>opcodes.hpp\<close> and \<^verbatim>\<open>functions.hpp\<close>, which number the
  opcodes, give each its signature and fix the lengths of the function tables, are not among
  the sources. Every property below is proved for an arbitrary record \<open>cfg\<close>; to run the
  functions on concrete programs, \<open>demo_isa\<close> is an instruction set of the shape the
  specification describes: a no-op, an element-wise opcode on doubles, the six
  function-dispatch opcodes with the function index as their last, untyped argument, and
  the reduction range with a sum and a product whose last argument is the axis.
\<close>

definition demo_rows :: "string list" where
  "demo_rows =
     [[CHR 0x00, CHR 0x00, CHR 0x00, CHR 0x00],
      ''ddd'' @ [CHR 0x00],
      ''ffn'' @ [CHR 0x00],
      ''fffn'',
      ''ddn'' @ [CHR 0x00],
      ''dddn'',
      ''ccn'' @ [CHR 0x00],
      ''cccn'',
      [CHR 0x00, CHR 0x00, CHR 0x00, CHR 0x00],
      ''ddn'' @ [CHR 0x00],
      ''ddn'' @ [CHR 0x00],
      [CHR 0x00, CHR 0x00, CHR 0x00, CHR 0x00]]"

definition demo_isa :: isa where
  "demo_isa =
     \<lparr>OP_NOOP = 0, OP_FUNC_FFN = 2, OP_FUNC_FFFN = 3, OP_FUNC_DDN = 4, OP_FUNC_DDDN = 5,
      OP_FUNC_CCN = 6, OP_FUNC_CCCN = 7, OP_REDUCTION = 8, OP_SUM = 9, OP_PROD = 10,
      OP_END = 11,
      FUNC_FF_LAST = 3, FUNC_FFF_LAST = 2, FUNC_DD_LAST = 3, FUNC_DDD_LAST = 2,
      FUNC_CC_LAST = 3, FUNC_CCC_LAST = 1,
      op_signature_table = (\<lambda>op n. demo_rows ! op ! n),
      MAX_DIMS = 32, BLOCK_SIZE1 = 128\<rparr>"

text \<open>An object with the given program, full signature and input signature.\<close>

definition demo_object :: "byte list \<Rightarrow> string \<Rightarrow> string \<Rightarrow> NumExprObject" where
  "demo_object prog fs sg =
     \<lparr>program = Some prog, fullsig = Some fs, signature = Some sg,
      n_inputs = length sg, n_constants = 0, n_temps = length fs - 1 - length sg,
      memsizes = replicate (length fs) 8\<rparr>"

subsection \<open>Predicates of the properties\<close>

text \<open>
  The pointer of \<^verbatim>\<open>stringcmp\<close> into a string of width \<open>w\<close> after \<open>k\<close> steps.
\<close>

definition cur :: "nat \<Rightarrow> nat \<Rightarrow> cursor" where
  "cur w k = (if k < w then At k else AtNull)"

text \<open>
  A reduction out of place: at the instruction slot \<open>pc\<close>, which is not the last slot of
  the program, stands an opcode that is not the no-op and lies in the reduction range.
\<close>

definition reduction_not_last_at :: "isa \<Rightarrow> byte list \<Rightarrow> nat \<Rightarrow> bool" where
  "reduction_not_last_at cfg prog pc =
     (pc mod 4 = 0 \<and> pc + 4 < length prog \<and> uint (prog ! pc) \<noteq> OP_NOOP cfg
      \<and> uint (prog ! pc) \<ge> OP_REDUCTION cfg)"



subsection \<open>Sample calls\<close>

text \<open>
  The answers of the NumPy API, iterators, arrays and interpreter bodies used to run
  \<^verbatim>\<open>NumExpr_run\<close> and \<^verbatim>\<open>run_interpreter\<close> on concrete calls.
\<close>

definition demo_api :: "npy_iter option \<Rightarrow> npy_iter option \<Rightarrow> numpy_api" where
  "demo_api it rit =
     \<lparr>NPY_MAXARGS = 32, simple_new = Some 1000, from_array = Some 2000,
      advanced_new = it, advanced_new_reduce = rit\<rparr>"

definition demo_array :: "nat list \<Rightarrow> nat \<Rightarrow> ndarray" where
  "demo_array shape p = \<lparr>dims = shape, descr = PyArray_DOUBLE, data = p, writeable = True\<rparr>"

definition demo_iter :: "nat list \<Rightarrow> int list \<Rightarrow> int \<Rightarrow> npy_iter" where
  "demo_iter shape sizes n =
     \<lparr>get_iternext_ok = True, inner_sizes = sizes, iter_size = n, reset_ok = True,
      reset_base_ret = 1, errmsg_text = ''iterator error'',
      operand0 = demo_array shape 3000\<rparr>"

definition demo_host :: host_alloc where
  "demo_host = \<lparr>copy_ok = (\<lambda>_. True), new_ok = (\<lambda>_. True), worker_ret_code = 0\<rparr>"

definition demo_bodies :: "block_body \<Rightarrow> bodies" where
  "demo_bodies b =
     \<lparr>body_task = b, body_outer_reduce = b, body_const = b,
      worker_pc_error = None, worker_errmsg = None\<rparr>"

subsection \<open>Predicates on calls\<close>

text \<open>The operand an argument stands for, when there is one.\<close>

definition operand_of :: "pyobj \<Rightarrow> ndarray option" where
  "operand_of ob = (case ob of ArrayObj x \<Rightarrow> Some x | OtherObj conv \<Rightarrow> conv)"


definition opcodes_backwards :: "byte list \<Rightarrow> int list" where
  "opcodes_backwards prog =
     map (\<lambda>k. uint (prog ! (length prog - 4 * Suc k))) [0..<length prog div 4]"


text \<open>
  The errors that report the execution of the program, as opposed to the errors about the
  arguments of a call.
\<close>

definition execution_error :: "py_error \<Rightarrow> bool" where
  "execution_error e =
     (case e of
        RuntimeError _ \<Rightarrow> True
      | BadArgumentAtPc _ \<Rightarrow> True
      | BadOpcodeAtPc _ \<Rightarrow> True
      | _ \<Rightarrow> False)"

text \<open>A call that ends before anything is evaluated, and without such an error.\<close>

definition quiet :: "run_outcome \<Rightarrow> bool" where
  "quiet out = (out = UndefinedBehaviour \<or> (\<exists>e. out = fails e \<and> \<not> execution_error e))"

section \<open>Properties\<close>

subsection \<open>stringcmp\<close>

text \<open>A \<^verbatim>\<open>char\<close> that is signed reads the bytes from 128 on as negative numbers.\<close>

lemma sint_byte: "sint (b :: byte) = (if uint b < 128 then uint b else uint b - 256)"
proof -
  have hi: "uint b < 256" using uint_lt2p [of b] by simp
  have lo: "0 \<le> uint b" by simp
  have s: "sint b = (uint b + 128) mod 256 - 128"
    by (simp add: sint_uint signed_take_bit_eq_take_bit_shift take_bit_eq_mod)
  show ?thesis
  proof (cases "uint b < 128")
    case True
    then have "(uint b + 128) mod 256 = uint b + 128"
      using lo by (intro mod_pos_pos_trivial) simp_all
    then show ?thesis using s True by simp
  next
    case False
    have e: "uint b + 128 = (uint b - 128) + 256" by arith
    have "(uint b + 128) mod 256 = ((uint b - 128) + 256) mod 256" by (subst e) (rule refl)
    also have "\<dots> = (uint b - 128) mod 256" by (simp only: mod_add_self2)
    also have "\<dots> = uint b - 128" using False hi by (intro mod_pos_pos_trivial) simp_all
    finally show ?thesis using s False by simp
  qed
qed


lemma char_val_small: "uint b < 128 \<Longrightarrow> char_val sg b = uint b"
  by (simp add: char_val_def sint_byte)

lemma char_val_unsigned: "char_val False b = uint b"
  by (simp add: char_val_def)

lemma deref_cur:
  assumes "w \<le> length s" "k < m" "w \<le> m"
  shows "deref s (cur w k) = Some (nul_pad m (take w s) ! k)"
  using assms by (auto simp: deref_def cur_def nul_pad_def nth_append min_def)

lemma cur_step:
  "0 < w \<Longrightarrow> (if int k + 1 \<ge> int w then AtNull else advance (cur w k)) = cur w (Suc k)"
  by (auto simp: cur_def advance_def)

lemma length_nul_pad: "length s \<le> n \<Longrightarrow> length (nul_pad n s) = n"
  by (simp add: nul_pad_def)

lemma stringcmp_loop_padded:
  assumes "w1 \<le> length s1" "w2 \<le> length s2" "0 < w1" "0 < w2" "w1 \<le> m" "w2 \<le> m"
    and ord: "\<And>c. c \<in> set (nul_pad m (take w1 s1)) \<union> set (nul_pad m (take w2 s2))
                \<Longrightarrow> char_val sg c = uint c"
  shows "k \<le> m \<Longrightarrow>
    stringcmp_loop sg s1 s2 (int w1) (int w2) (int m) (cur w1 k) (cur w2 k) (int k + 1) =
      Some (compare_bytes (drop k (nul_pad m (take w1 s1))) (drop k (nul_pad m (take w2 s2))))"
proof (induction "m - k" arbitrary: k)
  case 0
  then have "k = m" by simp
  then show ?case
    using assms(1-6) by (subst stringcmp_loop.simps) (simp add: length_nul_pad)
next
  case (Suc d)
  then have km: "k < m" by simp
  let ?a = "nul_pad m (take w1 s1)" and ?b = "nul_pad m (take w2 s2)"
  have la: "length ?a = m" and lb: "length ?b = m"
    using assms(1-6) by (simp_all add: length_nul_pad)
  have da: "drop k ?a = ?a ! k # drop (Suc k) ?a" and db: "drop k ?b = ?b ! k # drop (Suc k) ?b"
    using km la lb by (simp_all add: Cons_nth_drop_Suc)
  have va: "char_val sg (?a ! k) = uint (?a ! k)"
    using km la by (intro ord) simp
  have vb: "char_val sg (?b ! k) = uint (?b ! k)"
    using km lb by (intro ord) simp
  have ih: "stringcmp_loop sg s1 s2 (int w1) (int w2) (int m) (cur w1 (Suc k)) (cur w2 (Suc k)) (int (Suc k) + 1) =
      Some (compare_bytes (drop (Suc k) ?a) (drop (Suc k) ?b))"
    using Suc km by (intro Suc.hyps(1)) simp_all
  have step1: "(if int w1 \<le> int k + 1 then AtNull else advance (cur w1 k)) = cur w1 (Suc k)"
    using cur_step [OF assms(3), of k] by simp
  have step2: "(if int w2 \<le> int k + 1 then AtNull else advance (cur w2 k)) = cur w2 (Suc k)"
    using cur_step [OF assms(4), of k] by simp
  have nx: "int k + 1 + 1 = int (Suc k) + 1" by simp
  show ?case
    apply (subst stringcmp_loop.simps)
    apply (subst da, subst db)
    using km ih
    apply (simp add: deref_cur [OF assms(1) km assms(5)] deref_cur [OF assms(2) km assms(6)]
        step1 step2 nx va vb del: of_nat_Suc)
    done
qed

text \<open>
  For declared widths of at least 1 and bytes that \<^verbatim>\<open>char\<close> orders as their values (an
  unsigned \<^verbatim>\<open>char\<close>, or bytes below 128), \<^verbatim>\<open>stringcmp\<close> is the comparison of the
  strings padded with NUL bytes.
\<close>

lemma stringcmp_padded:
  assumes "w1 \<le> length s1" "w2 \<le> length s2" "0 < w1" "0 < w2"
    and ord: "sg \<Longrightarrow> \<forall>c \<in> set (take w1 s1) \<union> set (take w2 s2). uint c < 128"
  shows "stringcmp sg s1 s2 (int w1) (int w2) = Some (padded_compare s1 s2 w1 w2)"
proof -
  let ?m = "max w1 w2"
  have m: "(if int w1 > int w2 then int w1 else int w2) = int ?m" by simp
  have v: "char_val sg c = uint c"
    if "c \<in> set (nul_pad ?m (take w1 s1)) \<union> set (nul_pad ?m (take w2 s2))" for c
  proof (cases sg)
    case False
    then show ?thesis by (simp add: char_val_def)
  next
    case True
    have "c = 0 \<or> c \<in> set (take w1 s1) \<union> set (take w2 s2)"
      using that by (auto simp: nul_pad_def split: if_splits)
    then have "uint c < 128" using ord [OF True] by auto
    then show ?thesis by (rule char_val_small)
  qed
  have "stringcmp_loop sg s1 s2 (int w1) (int w2) (int ?m) (cur w1 0) (cur w2 0) (int 0 + 1) =
      Some (compare_bytes (drop 0 (nul_pad ?m (take w1 s1))) (drop 0 (nul_pad ?m (take w2 s2))))"
    using assms(1-4) v by (intro stringcmp_loop_padded) simp_all
  then show ?thesis
    using assms(1-4) unfolding stringcmp_def Let_def m padded_compare_def by (simp add: cur_def)
qed

text \<open>The sample of the specification: "ab" of width 2 against "abc" of width 3 is -1.\<close>

lemma stringcmp_sample:
  "stringcmp True [97, 98] [97, 98, 99] 2 3 = Some (- 1)
   \<and> stringcmp False [97, 98] [97, 98, 99] 2 3 = Some (- 1)
   \<and> stringcmp True [97, 98, 99] [97, 98] 3 2 = Some 1
   \<and> stringcmp True [97, 98] [97, 98, 0] 2 3 = Some 0"
  using stringcmp_padded [of 2 "[97, 98]" 3 "[97, 98, 99]" True]
    stringcmp_padded [of 2 "[97, 98]" 3 "[97, 98, 99]" False]
    stringcmp_padded [of 3 "[97, 98, 99]" 2 "[97, 98]" True]
    stringcmp_padded [of 2 "[97, 98]" 3 "[97, 98, 0]" True]
  by (simp add: padded_compare_def nul_pad_def)

text \<open>
  Where \<^verbatim>\<open>char\<close> is signed, a byte from 128 on is compared as a negative number and
  sorts below every byte under 128, NUL included.
\<close>

lemma stringcmp_signed_char:
  "stringcmp True [128] [1] 1 1 = Some (- 1)
   \<and> stringcmp False [128] [1] 1 1 = Some 1
   \<and> padded_compare [128] [1] 1 1 = 1"
  by (simp add: stringcmp_def stringcmp_loop.simps deref_def advance_def char_val_def
      padded_compare_def nul_pad_def)

text \<open>
  Claim C7. \<^verbatim>\<open>stringcmp(s1, s2, w1, w2)\<close> is to compare two strings of fixed width as
  if the shorter were padded with NUL bytes to the longer declared width. A string of
  declared width 0 is not compared so: the first turn of the loop reads the byte at
  \<^verbatim>\<open>s1\<close> and compares it before \<^verbatim>\<open>maxlen1\<close> is consulted, although no byte of the
  buffer belongs to the string. With the byte \<^verbatim>\<open>x\<close> at \<^verbatim>\<open>s1\<close>, width 0, against
  "a" of width 1, \<^verbatim>\<open>stringcmp\<close> returns +1, whatever the sign of \<^verbatim>\<open>char\<close>; the
  empty string padded with one NUL byte is below "a", and the comparison with padding
  gives -1.
\<close>

theorem stringcmp_width_zero:
  "stringcmp True [120] [97] 0 1 = Some 1
   \<and> stringcmp False [120] [97] 0 1 = Some 1
   \<and> padded_compare [120] [97] 0 1 = - 1"
  by (simp add: stringcmp_def stringcmp_loop.simps deref_def char_val_def
      padded_compare_def nul_pad_def)

subsection \<open>The validator\<close>

text \<open>The equations that run the validator on a concrete program.\<close>

lemmas demo_simps =
  demo_object_def demo_isa_def demo_rows_def check_program_def check_instrs.simps
  check_instr_def check_args.simps check_arg_def arg_location_def op_signature_def max_args_def
  chr_def funccode_dispatch_def funccode_check_def buffer_type_check_def Let_def

lemma funccode_check_not_reduction: "funccode_check a l g \<noteq> Inl ReductionNotLast"
  by (simp add: funccode_check_def)

lemma funccode_dispatch_not_reduction: "funccode_dispatch cfg op a g \<noteq> Inl ReductionNotLast"
  by (simp add: funccode_dispatch_def funccode_check_not_reduction)

lemma buffer_type_check_not_reduction: "buffer_type_check fs sig a g \<noteq> Inl ReductionNotLast"
  by (simp add: buffer_type_check_def)

lemma check_arg_not_reduction: "check_arg cfg p fs pc op argno sig \<noteq> Inl ReductionNotLast"
  unfolding check_arg_def Let_def
  by (simp add: funccode_dispatch_not_reduction buffer_type_check_not_reduction)

lemma check_args_not_reduction: "check_args cfg p fs pc op argno \<noteq> Inl ReductionNotLast"
proof (induction cfg p fs pc op argno rule: check_args.induct)
  case (1 cfg p fs pc op argno)
  show ?case
  proof (cases "check_arg cfg p fs pc op argno (op_signature cfg op argno)")
    case (Inl a)
    then have "a \<noteq> ReductionNotLast" using check_arg_not_reduction [of cfg p fs pc op argno] by auto
    then show ?thesis using Inl by (subst check_args.simps) (simp add: Let_def)
  next
    case (Inr u)
    then show ?thesis using 1 by (subst check_args.simps) (simp add: Let_def)
  qed
qed

lemma step4: "(q - (start + 4)) mod 4 = 0 \<Longrightarrow> start + 4 \<le> q \<Longrightarrow> (q - start) mod 4 = (0::nat)"
  by presburger

lemma step4': "(pc - start) mod 4 = 0 \<Longrightarrow> start < pc \<Longrightarrow> start + 4 \<le> pc \<and> (pc - (start + 4)) mod 4 = (0::nat)"
  by presburger

lemma check_instrs_fails:
  "start \<le> pc \<Longrightarrow> pc < length p \<Longrightarrow> (pc - start) mod 4 = 0 \<Longrightarrow>
   check_instr cfg p fs pc = Inl e \<Longrightarrow> \<exists>e'. check_instrs cfg p fs start = Inl e'"
proof (induction cfg p fs start rule: check_instrs.induct)
  case (1 cfg p fs start)
  show ?case
  proof (cases "check_instr cfg p fs start")
    case (Inl a)
    then show ?thesis using 1(2,3) by (subst check_instrs.simps) simp
  next
    case (Inr u)
    then have "start \<noteq> pc" using 1(5) by auto
    then have slt: "start < pc" using 1(2) by simp
    have le: "start + 4 \<le> pc" and md: "(pc - (start + 4)) mod 4 = 0"
      using step4' [OF 1(4) slt] by simp_all
    have lt: "start < length p" using 1(3) slt by simp
    obtain e' where "check_instrs cfg p fs (start + 4) = Inl e'"
      using 1(1) [OF lt Inr le 1(3) md 1(5)] by blast
    then show ?thesis using lt Inr by (subst check_instrs.simps) simp
  qed
qed

lemma check_instrs_first_failure:
  "start \<le> pc \<Longrightarrow> pc < length p \<Longrightarrow> (pc - start) mod 4 = 0 \<Longrightarrow>
   check_instr cfg p fs pc = Inl e \<Longrightarrow>
   (\<And>q. start \<le> q \<Longrightarrow> q < pc \<Longrightarrow> (q - start) mod 4 = 0 \<Longrightarrow> check_instr cfg p fs q = Inr ()) \<Longrightarrow>
   check_instrs cfg p fs start = Inl e"
proof (induction cfg p fs start rule: check_instrs.induct)
  case (1 cfg p fs start)
  show ?case
  proof (cases "start = pc")
    case True
    then show ?thesis using 1(3,5) by (subst check_instrs.simps) simp
  next
    case False
    then have slt: "start < pc" using 1(2) by simp
    have here: "check_instr cfg p fs start = Inr ()"
      using 1(6) [of start] slt by simp
    have le: "start + 4 \<le> pc" and md: "(pc - (start + 4)) mod 4 = 0"
      using step4' [OF 1(4) slt] by simp_all
    have lt: "start < length p" using 1(3) slt by simp
    have rest: "check_instrs cfg p fs (start + 4) = Inl e"
    proof (rule 1(1) [OF lt here le 1(3) md 1(5)])
      fix q assume q: "start + 4 \<le> q" "q < pc" "(q - (start + 4)) mod 4 = 0"
      have "(q - start) mod 4 = 0" using step4 [OF q(3) q(1)] .
      then show "check_instr cfg p fs q = Inr ()" using 1(6) [of q] q by simp
    qed
    show ?thesis using lt here rest by (subst check_instrs.simps) simp
  qed
qed

lemma check_instrs_not_reduction:
  "(\<And>q. start \<le> q \<Longrightarrow> q < length p \<Longrightarrow> (q - start) mod 4 = 0 \<Longrightarrow>
      check_instr cfg p fs q \<noteq> Inl ReductionNotLast) \<Longrightarrow>
   check_instrs cfg p fs start \<noteq> Inl ReductionNotLast"
proof (induction cfg p fs start rule: check_instrs.induct)
  case (1 cfg p fs start)
  show ?case
  proof (cases "start < length p")
    case False
    then show ?thesis by (subst check_instrs.simps) simp
  next
    case True
    show ?thesis
    proof (cases "check_instr cfg p fs start")
      case (Inl a)
      then show ?thesis using True 1(2) [of start] by (subst check_instrs.simps) auto
    next
      case (Inr u)
      have "check_instrs cfg p fs (start + 4) \<noteq> Inl ReductionNotLast"
      proof (rule 1(1) [OF True Inr])
        fix q assume q: "start + 4 \<le> q" "q < length p" "(q - (start + 4)) mod 4 = 0"
        have "(q - start) mod 4 = 0" using step4 [OF q(3) q(1)] .
        then show "check_instr cfg p fs q \<noteq> Inl ReductionNotLast" using 1(2) [of q] q by simp
      qed
      then show ?thesis using True Inr by (subst check_instrs.simps) simp
    qed
  qed
qed

lemma check_instr_misplaced:
  "reduction_not_last_at cfg prog pc \<Longrightarrow> check_instr cfg prog fs pc = Inl ReductionNotLast"
  by (auto simp: reduction_not_last_at_def check_instr_def Let_def)

lemma check_instr_reduction_error:
  assumes "check_instr cfg prog fs pc = Inl ReductionNotLast" "pc < length prog" "pc mod 4 = 0"
    "length prog mod 4 = 0"
  shows "reduction_not_last_at cfg prog pc"
proof -
  have op: "uint (prog ! pc) \<noteq> OP_NOOP cfg" "uint (prog ! pc) \<ge> OP_REDUCTION cfg"
    "int pc \<noteq> int (length prog) - 4"
    using assms(1) check_args_not_reduction [of cfg prog fs pc "uint (prog ! pc)" 0]
    by (auto simp: check_instr_def Let_def split: if_splits)
  have "pc + 4 < length prog" using assms(2,3,4) op(3) by presburger
  then show ?thesis using op assms(3) by (simp add: reduction_not_last_at_def)
qed

lemma check_program_rejects:
  assumes "program self = Some prog" "pc < length prog" "pc mod 4 = 0"
    "\<And>fs. \<exists>e. check_instr cfg prog fs pc = Inl e"
  shows "\<exists>e'. check_program cfg self = Inl e'"
proof -
  have "\<exists>e'. check_instrs cfg prog fs 0 = Inl e'" for fs
  proof -
    obtain e where "check_instr cfg prog fs pc = Inl e" using assms(4) by blast
    then show ?thesis using check_instrs_fails [of 0 pc prog cfg fs e] assms(2,3) by simp
  qed
  then show ?thesis
    using assms(1) by (auto simp: check_program_def split: option.splits)
qed

text \<open>
  Claim C4, as the code has it. A program with a reduction out of place (an opcode of the
  reduction range, not the no-op, at an instruction slot other than the last) is always
  rejected by \<^verbatim>\<open>check_program\<close>. The error is "reduction operations must occur last"
  when the misplaced reduction is the first thing wrong: the length is a multiple of 4, the
  signatures are readable, there are at most 255 buffers and every earlier instruction
  passes its checks; otherwise the validator reports the earlier failure. And that error
  is reported only for a reduction out of place: a program whose only reduction opcode is
  its last instruction passes this check.
\<close>

theorem reduction_position:
  assumes "program self = Some prog"
  shows "((\<exists>pc. reduction_not_last_at cfg prog pc) \<longrightarrow> (\<exists>e. check_program cfg self = Inl e))
    \<and> (\<forall>pc fs sg. reduction_not_last_at cfg prog pc \<and> length prog mod 4 = 0
          \<and> fullsig self = Some fs \<and> signature self = Some sg \<and> length fs \<le> 255
          \<and> (\<forall>q<pc. q mod 4 = 0 \<longrightarrow> check_instr cfg prog fs q = Inr ())
        \<longrightarrow> check_program cfg self = Inl ReductionNotLast)
    \<and> (check_program cfg self = Inl ReductionNotLast \<longrightarrow> (\<exists>pc. reduction_not_last_at cfg prog pc))"
proof (intro conjI impI allI)
  assume "\<exists>pc. reduction_not_last_at cfg prog pc"
  then obtain pc where m: "reduction_not_last_at cfg prog pc" ..
  then have "pc < length prog" "pc mod 4 = 0" by (simp_all add: reduction_not_last_at_def)
  then show "\<exists>e. check_program cfg self = Inl e"
    using check_program_rejects [OF assms, of pc cfg] check_instr_misplaced [OF m] by simp
next
  fix pc fs sg
  assume h: "reduction_not_last_at cfg prog pc \<and> length prog mod 4 = 0
          \<and> fullsig self = Some fs \<and> signature self = Some sg \<and> length fs \<le> 255
          \<and> (\<forall>q<pc. q mod 4 = 0 \<longrightarrow> check_instr cfg prog fs q = Inr ())"
  then have m: "reduction_not_last_at cfg prog pc" by simp
  then have pc: "pc < length prog" "pc mod 4 = 0" by (simp_all add: reduction_not_last_at_def)
  have "check_instrs cfg prog fs 0 = Inl ReductionNotLast"
    using check_instrs_first_failure [of 0 pc prog cfg fs ReductionNotLast]
      check_instr_misplaced [OF m, of fs] pc h by simp
  then show "check_program cfg self = Inl ReductionNotLast"
    using assms h by (simp add: check_program_def)
next
  assume r: "check_program cfg self = Inl ReductionNotLast"
  then obtain fs where fs: "length prog mod 4 = 0" "check_instrs cfg prog fs 0 = Inl ReductionNotLast"
    using assms by (auto simp: check_program_def split: option.splits if_splits)
  show "\<exists>pc. reduction_not_last_at cfg prog pc"
  proof (rule ccontr)
    assume n: "\<nexists>pc. reduction_not_last_at cfg prog pc"
    have "check_instrs cfg prog fs 0 \<noteq> Inl ReductionNotLast"
    proof (rule check_instrs_not_reduction)
      fix q assume "0 \<le> q" "q < length prog" "(q - 0) mod 4 = 0"
      then show "check_instr cfg prog fs q \<noteq> Inl ReductionNotLast"
        using check_instr_reduction_error [of cfg prog fs q] fs(1) n by auto
    qed
    with fs(2) show False by simp
  qed
qed

text \<open>
  Claim C6. \<^verbatim>\<open>get_reduction_axis\<close> reads the last byte \<open>v\<close> of the program: 255 is
  returned as it is, a value below \<^verbatim>\<open>MAX_DIMS\<close> is returned as it is, and any other
  value is returned as \<^verbatim>\<open>MAX_DIMS - v\<close>.
\<close>

theorem reduction_axis_decoding:
  assumes "prog \<noteq> []"
  shows "get_reduction_axis cfg prog =
    Some (let v = uint (last prog) in
          if v = 255 then 255 else if v < MAX_DIMS cfg then v else MAX_DIMS cfg - v)"
proof -
  have "nat (int (length prog) - 1) = length prog - 1" by simp
  then have "prog ! nat (int (length prog) - 1) = last prog"
    using assms by (simp add: last_conv_nth)
  then show ?thesis
    using assms by (auto simp: get_reduction_axis_def Let_def)
qed

text \<open>
  Claim C4 as stated fails: this program has the sum opcode in its second slot of three, and
  the validator stops at the first instruction, whose output register 7 is out of range.
\<close>

theorem reduction_position_counterexample:
  "reduction_not_last_at demo_isa [1, 7, 0, 0,  9, 0, 1, 0,  0, 0, 0, 0] 4
   \<and> check_program demo_isa (demo_object [1, 7, 0, 0,  9, 0, 1, 0,  0, 0, 0, 0] ''ddd'' ''dd'')
       = Inl (BufferOutOfRange 7 1)
   \<and> check_program demo_isa (demo_object [1, 7, 0, 0,  9, 0, 1, 0,  0, 0, 0, 0] ''ddd'' ''dd'')
       \<noteq> Inl ReductionNotLast"
  by (simp add: demo_simps reduction_not_last_at_def)

theorem reduction_position_witness:
  "check_program demo_isa (demo_object [1, 2, 0, 1,  9, 0, 2, 255,  0, 0, 0, 0] ''ddd'' ''dd'')
     = Inl ReductionNotLast
   \<and> check_program demo_isa (demo_object [1, 2, 0, 1,  9, 0, 2, 255] ''ddd'' ''dd'') = Inr ()
   \<and> (\<nexists>pc. reduction_not_last_at demo_isa [1, 2, 0, 1,  9, 0, 2, 255] pc)"
proof -
  let ?bad = "[1, 2, 0, 1,  9, 0, 2, 255,  0, 0, 0, 0] :: byte list"
  let ?good = "[1, 2, 0, 1,  9, 0, 2, 255] :: byte list"
  have m: "reduction_not_last_at demo_isa ?bad 4"
    by (simp add: reduction_not_last_at_def demo_isa_def)
  have zero: "check_instr demo_isa ?bad ''ddd'' 0 = Inr ()"
    by (simp add: demo_simps)
  have first: "\<forall>q<4. q mod 4 = 0 \<longrightarrow> check_instr demo_isa ?bad ''ddd'' q = Inr ()"
  proof (intro allI impI)
    fix q :: nat assume "q < 4" "q mod 4 = 0"
    then have "q = 0" by presburger
    then show "check_instr demo_isa ?bad ''ddd'' q = Inr ()" using zero by simp
  qed
  have p: "program (demo_object ?bad ''ddd'' ''dd'') = Some ?bad"
    "fullsig (demo_object ?bad ''ddd'' ''dd'') = Some ''ddd''"
    "signature (demo_object ?bad ''ddd'' ''dd'') = Some ''dd''"
    by (simp_all add: demo_object_def)
  have len: "length ?bad mod 4 = 0" "length ''ddd'' \<le> 255" by simp_all
  have bad: "check_program demo_isa (demo_object ?bad ''ddd'' ''dd'') = Inl ReductionNotLast"
    by (rule reduction_position [OF p(1), of demo_isa, THEN conjunct2, THEN conjunct1,
          rule_format, of 4 "''ddd''" "''dd''"])
      (intro conjI m len p first)
  have g: "program (demo_object ?good ''ddd'' ''dd'') = Some ?good"
    by (simp add: demo_object_def)
  have ok: "check_program demo_isa (demo_object ?good ''ddd'' ''dd'') = Inr ()"
    by (simp add: demo_simps)
  have none: "\<nexists>pc. reduction_not_last_at demo_isa ?good pc"
  proof
    assume "\<exists>pc. reduction_not_last_at demo_isa ?good pc"
    then have "\<exists>e. check_program demo_isa (demo_object ?good ''ddd'' ''dd'') = Inl e"
      by (rule reduction_position [OF g, of demo_isa, THEN conjunct1, rule_format])
    then show False unfolding ok by simp
  qed
  show ?thesis by (intro conjI bad ok none)
qed

theorem reduction_axis_decoding_witness:
  "get_reduction_axis demo_isa [9, 0, 1, 255] = Some 255
   \<and> get_reduction_axis demo_isa [9, 0, 1, 2] = Some 2
   \<and> get_reduction_axis demo_isa [9, 0, 1, 40] = Some (- 8)"
  using reduction_axis_decoding [of "[9, 0, 1, 255]" demo_isa]
    reduction_axis_decoding [of "[9, 0, 1, 2]" demo_isa]
    reduction_axis_decoding [of "[9, 0, 1, 40]" demo_isa]
  by (simp add: demo_isa_def)






subsection \<open>The set-up of the parallel engine\<close>

lemma deallocated_NpyIter_Deallocate [simp]:
  "deallocated (NpyIter_Deallocate i t) = deallocated t @ [th_iter t i]"
  "th_iter (NpyIter_Deallocate i t) = th_iter t"
  "deleted (NpyIter_Deallocate i t) = deleted t"
  "th_memsteps (NpyIter_Deallocate i t) = th_memsteps t"
  "barriers_passed (NpyIter_Deallocate i t) = barriers_passed t"
  by (simp_all add: NpyIter_Deallocate_def)

lemma deleted_PyMem_Del [simp]:
  "deleted (PyMem_Del i t) = deleted t @ [th_memsteps t i]"
  "th_iter (PyMem_Del i t) = th_iter t"
  "deallocated (PyMem_Del i t) = deallocated t"
  "th_memsteps (PyMem_Del i t) = th_memsteps t"
  "barriers_passed (PyMem_Del i t) = barriers_passed t"
  by (simp_all add: PyMem_Del_def)

lemma fold_dealloc:
  "deallocated (fold NpyIter_Deallocate is t) = deallocated t @ map (th_iter t) is
   \<and> th_iter (fold NpyIter_Deallocate is t) = th_iter t
   \<and> deleted (fold NpyIter_Deallocate is t) = deleted t
   \<and> th_memsteps (fold NpyIter_Deallocate is t) = th_memsteps t
   \<and> barriers_passed (fold NpyIter_Deallocate is t) = barriers_passed t"
  by (induction "is" arbitrary: t) simp_all

lemma del_memsteps_down_fields:
  "deleted (del_memsteps_down m t) = deleted t @ map (th_memsteps t) (rev [1..<Suc m])
   \<and> th_iter (del_memsteps_down m t) = th_iter t
   \<and> deallocated (del_memsteps_down m t) = deallocated t
   \<and> th_memsteps (del_memsteps_down m t) = th_memsteps t
   \<and> barriers_passed (del_memsteps_down m t) = barriers_passed t"
  by (induction m arbitrary: t) simp_all

lemma dealloc_iters_down_fields:
  "deallocated (dealloc_iters_down m t) = deallocated t @ map (th_iter t) (rev [1..<Suc m])
   \<and> th_iter (dealloc_iters_down m t) = th_iter t
   \<and> deleted (dealloc_iters_down m t) = deleted t
   \<and> th_memsteps (dealloc_iters_down m t) = th_memsteps t
   \<and> barriers_passed (dealloc_iters_down m t) = barriers_passed t"
  by (induction m arbitrary: t) simp_all

lemma copy_iters_all_ok:
  "(\<And>j. i \<le> j \<Longrightarrow> j < n \<Longrightarrow> copy_ok h j) \<Longrightarrow>
   fst (copy_iters h n i t)
   \<and> th_iter (snd (copy_iters h n i t)) =
        (\<lambda>j. if i \<le> j \<and> j < n then Some (IterCopy j) else th_iter t j)
   \<and> deallocated (snd (copy_iters h n i t)) = deallocated t
   \<and> deleted (snd (copy_iters h n i t)) = deleted t
   \<and> th_memsteps (snd (copy_iters h n i t)) = th_memsteps t
   \<and> barriers_passed (snd (copy_iters h n i t)) = barriers_passed t"
proof (induction h n i t rule: copy_iters.induct)
  case (1 h n i t)
  show ?case
  proof (cases "i < n")
    case False
    then have "copy_iters h n i t = (True, t)" by (subst copy_iters.simps) simp
    moreover have "(\<lambda>j. if i \<le> j \<and> j < n then Some (IterCopy j) else th_iter t j) = th_iter t"
      using False by (auto simp: fun_eq_iff)
    ultimately show ?thesis by simp
  next
    case True
    have ok: "copy_ok h i" using 1(2) True by simp
    let ?t = "t\<lparr>th_iter := (th_iter t)(i := Some (IterCopy i))\<rparr>"
    have st: "copy_iters h n i t = copy_iters h n (Suc i) ?t"
      using True ok by (subst copy_iters.simps) simp
    have ih: "fst (copy_iters h n (Suc i) ?t)
      \<and> th_iter (snd (copy_iters h n (Suc i) ?t)) =
          (\<lambda>j. if Suc i \<le> j \<and> j < n then Some (IterCopy j) else th_iter ?t j)
      \<and> deallocated (snd (copy_iters h n (Suc i) ?t)) = deallocated ?t
      \<and> deleted (snd (copy_iters h n (Suc i) ?t)) = deleted ?t
      \<and> th_memsteps (snd (copy_iters h n (Suc i) ?t)) = th_memsteps ?t
      \<and> barriers_passed (snd (copy_iters h n (Suc i) ?t)) = barriers_passed ?t"
      using 1(2) by (intro 1(1) [OF True ok]) simp_all
    have eq: "(\<lambda>j. if Suc i \<le> j \<and> j < n then Some (IterCopy j) else th_iter ?t j)
            = (\<lambda>j. if i \<le> j \<and> j < n then Some (IterCopy j) else th_iter t j)"
      using True by (auto simp: fun_eq_iff)
    show ?thesis unfolding st using ih eq by simp
  qed
qed

lemma copy_iters_first_failure:
  "i \<le> k \<Longrightarrow> k < n \<Longrightarrow> \<not> copy_ok h k \<Longrightarrow> (\<And>j. i \<le> j \<Longrightarrow> j < k \<Longrightarrow> copy_ok h j) \<Longrightarrow>
   \<not> fst (copy_iters h n i t)
   \<and> deallocated (snd (copy_iters h n i t)) =
        deallocated t @ map (\<lambda>j. if i \<le> j \<and> j < k then Some (IterCopy j) else th_iter t j)
                          (rev [1..<Suc (k - 1)])
   \<and> deleted (snd (copy_iters h n i t)) = deleted t
   \<and> barriers_passed (snd (copy_iters h n i t)) = barriers_passed t"
proof (induction h n i t rule: copy_iters.induct)
  case (1 h n i t)
  have lt: "i < n" using 1(2,3) by simp
  show ?case
  proof (cases "i = k")
    case True
    let ?t = "t\<lparr>th_iter := (th_iter t)(k := None)\<rparr>"
    have st: "copy_iters h n i t = (False, dealloc_iters_down (k - 1) ?t)"
      using True lt 1(4) by (subst copy_iters.simps) simp
    have "map (th_iter ?t) (rev [1..<Suc (k - 1)])
        = map (\<lambda>j. if i \<le> j \<and> j < k then Some (IterCopy j) else th_iter t j) (rev [1..<Suc (k - 1)])"
      using True by (intro map_cong) auto
    then show ?thesis unfolding st using dealloc_iters_down_fields [of "k - 1" ?t] by simp
  next
    case False
    then have ik: "i < k" using 1(2) by simp
    have ok: "copy_ok h i" using 1(5) ik by simp
    let ?t = "t\<lparr>th_iter := (th_iter t)(i := Some (IterCopy i))\<rparr>"
    have st: "copy_iters h n i t = copy_iters h n (Suc i) ?t"
      using lt ok by (subst copy_iters.simps) simp
    have ih: "\<not> fst (copy_iters h n (Suc i) ?t)
      \<and> deallocated (snd (copy_iters h n (Suc i) ?t)) =
          deallocated ?t @ map (\<lambda>j. if Suc i \<le> j \<and> j < k then Some (IterCopy j) else th_iter ?t j)
                            (rev [1..<Suc (k - 1)])
      \<and> deleted (snd (copy_iters h n (Suc i) ?t)) = deleted ?t
      \<and> barriers_passed (snd (copy_iters h n (Suc i) ?t)) = barriers_passed ?t"
      using 1(3,4,5) ik by (intro 1(1) [OF lt ok]) simp_all
    have eq: "(\<lambda>j. if Suc i \<le> j \<and> j < k then Some (IterCopy j) else th_iter ?t j)
            = (\<lambda>j. if i \<le> j \<and> j < k then Some (IterCopy j) else th_iter t j)"
      using ik by (auto simp: fun_eq_iff)
    show ?thesis unfolding st using ih eq by simp
  qed
qed

lemma copy_memsteps_first_failure:
  "i \<le> k \<Longrightarrow> k < n \<Longrightarrow> \<not> new_ok h k \<Longrightarrow> (\<And>j. i \<le> j \<Longrightarrow> j < k \<Longrightarrow> new_ok h j) \<Longrightarrow>
   \<not> fst (copy_memsteps h n i t)
   \<and> deleted (snd (copy_memsteps h n i t)) =
        deleted t @ map (\<lambda>j. if i \<le> j \<and> j < k then Some (MemstepsCopy j) else th_memsteps t j)
                      (rev [1..<Suc (k - 1)])
   \<and> deallocated (snd (copy_memsteps h n i t)) = deallocated t @ map (th_iter t) [0..<n]
   \<and> barriers_passed (snd (copy_memsteps h n i t)) = barriers_passed t"
proof (induction h n i t rule: copy_memsteps.induct)
  case (1 h n i t)
  have lt: "i < n" using 1(2,3) by simp
  show ?case
  proof (cases "i = k")
    case True
    let ?t = "t\<lparr>th_memsteps := (th_memsteps t)(k := None)\<rparr>"
    have st: "copy_memsteps h n i t =
        (False, fold NpyIter_Deallocate [0..<n] (del_memsteps_down (k - 1) ?t))"
      using True lt 1(4) by (subst copy_memsteps.simps) simp
    have "map (th_memsteps ?t) (rev [1..<Suc (k - 1)])
        = map (\<lambda>j. if i \<le> j \<and> j < k then Some (MemstepsCopy j) else th_memsteps t j)
            (rev [1..<Suc (k - 1)])"
      using True by (intro map_cong) auto
    then show ?thesis
      unfolding st
      using del_memsteps_down_fields [of "k - 1" ?t]
        fold_dealloc [of "[0..<n]" "del_memsteps_down (k - 1) ?t"]
      by simp
  next
    case False
    then have ik: "i < k" using 1(2) by simp
    have ok: "new_ok h i" using 1(5) ik by simp
    let ?t = "t\<lparr>th_memsteps := (th_memsteps t)(i := Some (MemstepsCopy i))\<rparr>"
    have st: "copy_memsteps h n i t = copy_memsteps h n (Suc i) ?t"
      using lt ok by (subst copy_memsteps.simps) simp
    have ih: "\<not> fst (copy_memsteps h n (Suc i) ?t)
      \<and> deleted (snd (copy_memsteps h n (Suc i) ?t)) =
          deleted ?t @ map (\<lambda>j. if Suc i \<le> j \<and> j < k then Some (MemstepsCopy j) else th_memsteps ?t j)
                        (rev [1..<Suc (k - 1)])
      \<and> deallocated (snd (copy_memsteps h n (Suc i) ?t)) = deallocated ?t @ map (th_iter ?t) [0..<n]
      \<and> barriers_passed (snd (copy_memsteps h n (Suc i) ?t)) = barriers_passed ?t"
      using 1(3,4,5) ik by (intro 1(1) [OF lt ok]) simp_all
    have eq: "(\<lambda>j. if Suc i \<le> j \<and> j < k then Some (MemstepsCopy j) else th_memsteps ?t j)
            = (\<lambda>j. if i \<le> j \<and> j < k then Some (MemstepsCopy j) else th_memsteps t j)"
      using ik by (auto simp: fun_eq_iff)
    show ?thesis unfolding st using ih eq by simp
  qed
qed

text \<open>
  Claim C2 asks that a failed set-up releases exactly the copies made so far and leaves the
  caller's iterator and table alone. When the allocation of a \<^verbatim>\<open>memsteps\<close> table fails,
  the source releases the iterators from slot 0 on: with two threads, a copy of the
  iterator that succeeds and a table that cannot be allocated, the caller's own iterator is
  passed to \<^verbatim>\<open>NpyIter_Deallocate\<close> together with the copy. The status is -1 and the
  barriers are not reached.
\<close>

theorem memsteps_failure_releases_caller_iterator:
  "fst (vm_engine_iter_parallel
          \<lparr>copy_ok = (\<lambda>_. True), new_ok = (\<lambda>_. False), worker_ret_code = 0\<rparr> 2 False th_params0)
     = - 1
   \<and> deallocated (snd (vm_engine_iter_parallel
          \<lparr>copy_ok = (\<lambda>_. True), new_ok = (\<lambda>_. False), worker_ret_code = 0\<rparr> 2 False th_params0))
     = [Some CallerIter, Some (IterCopy 1)]
   \<and> deleted (snd (vm_engine_iter_parallel
          \<lparr>copy_ok = (\<lambda>_. True), new_ok = (\<lambda>_. False), worker_ret_code = 0\<rparr> 2 False th_params0))
     = []
   \<and> \<not> barriers_passed (snd (vm_engine_iter_parallel
          \<lparr>copy_ok = (\<lambda>_. True), new_ok = (\<lambda>_. False), worker_ret_code = 0\<rparr> 2 False th_params0))"
  by (simp add: vm_engine_iter_parallel_def th_params0_def copy_iters.simps copy_memsteps.simps
      NpyIter_Deallocate_def PyMem_Del_def Let_def upt_rec)

text \<open>
  The two failures in general. A failed copy of the iterator for thread \<open>k\<close> releases the
  copies of the threads below \<open>k\<close>, downwards, and nothing else.
\<close>

lemma map_rev_range:
  assumes "1 \<le> k"
  shows "map (\<lambda>j. if 1 \<le> j \<and> j < k then Some (f j) else g j) (rev [1..<Suc (k - 1)])
       = map (Some \<circ> f) (rev [1..<k])"
proof -
  have "Suc (k - 1) = k" using assms by simp
  then show ?thesis by (auto intro!: map_cong)
qed

theorem iterator_copy_failure_rollback:
  assumes "1 \<le> k" "k < nthr" "\<not> copy_ok h k" "\<And>j. 1 \<le> j \<Longrightarrow> j < k \<Longrightarrow> copy_ok h j"
  shows "fst (vm_engine_iter_parallel h nthr False th_params0) = - 1
    \<and> deallocated (snd (vm_engine_iter_parallel h nthr False th_params0))
        = map (Some \<circ> IterCopy) (rev [1..<k])
    \<and> deleted (snd (vm_engine_iter_parallel h nthr False th_params0)) = []
    \<and> \<not> barriers_passed (snd (vm_engine_iter_parallel h nthr False th_params0))"
proof -
  let ?t1 = "th_params0\<lparr>th_ret_code := 0, th_iter := (th_iter th_params0)(0 := Some CallerIter)\<rparr>"
  obtain b t2 where c: "copy_iters h nthr 1 ?t1 = (b, t2)" by (cases "copy_iters h nthr 1 ?t1")
  have f: "\<not> fst (copy_iters h nthr 1 ?t1)
      \<and> deallocated (snd (copy_iters h nthr 1 ?t1)) =
          deallocated ?t1 @ map (\<lambda>j. if 1 \<le> j \<and> j < k then Some (IterCopy j) else th_iter ?t1 j)
                            (rev [1..<Suc (k - 1)])
      \<and> deleted (snd (copy_iters h nthr 1 ?t1)) = deleted ?t1
      \<and> barriers_passed (snd (copy_iters h nthr 1 ?t1)) = barriers_passed ?t1"
    using assms by (intro copy_iters_first_failure) simp_all
  have b: "\<not> b" using f c by simp
  have r: "vm_engine_iter_parallel h nthr False th_params0 = (- 1, t2)"
    using c b by (simp add: vm_engine_iter_parallel_def Let_def)
  have "deallocated t2 = map (Some \<circ> IterCopy) (rev [1..<k])"
    using f c map_rev_range [OF assms(1), of IterCopy "th_iter ?t1"] by (simp add: th_params0_def)
  moreover have "deleted t2 = []" "\<not> barriers_passed t2"
    using f c by (simp_all add: th_params0_def)
  ultimately show ?thesis using r by simp
qed

text \<open>
  A failed allocation of the table for thread \<open>k\<close> deletes the tables of the threads
  below \<open>k\<close> and releases every iterator of \<^verbatim>\<open>th_params\<close>: the copies and the
  caller's.
\<close>

theorem memsteps_failure_rollback:
  assumes "1 \<le> k" "k < nthr" "\<And>j. 1 \<le> j \<Longrightarrow> j < nthr \<Longrightarrow> copy_ok h j"
    "\<not> new_ok h k" "\<And>j. 1 \<le> j \<Longrightarrow> j < k \<Longrightarrow> new_ok h j"
  shows "fst (vm_engine_iter_parallel h nthr False th_params0) = - 1
    \<and> deleted (snd (vm_engine_iter_parallel h nthr False th_params0))
        = map (Some \<circ> MemstepsCopy) (rev [1..<k])
    \<and> deallocated (snd (vm_engine_iter_parallel h nthr False th_params0))
        = Some CallerIter # map (Some \<circ> IterCopy) [1..<nthr]
    \<and> \<not> barriers_passed (snd (vm_engine_iter_parallel h nthr False th_params0))"
proof -
  let ?t1 = "th_params0\<lparr>th_ret_code := 0, th_iter := (th_iter th_params0)(0 := Some CallerIter)\<rparr>"
  obtain b t2 where c: "copy_iters h nthr 1 ?t1 = (b, t2)" by (cases "copy_iters h nthr 1 ?t1")
  have f: "fst (copy_iters h nthr 1 ?t1)
      \<and> th_iter (snd (copy_iters h nthr 1 ?t1)) =
          (\<lambda>j. if 1 \<le> j \<and> j < nthr then Some (IterCopy j) else th_iter ?t1 j)
      \<and> deallocated (snd (copy_iters h nthr 1 ?t1)) = deallocated ?t1
      \<and> deleted (snd (copy_iters h nthr 1 ?t1)) = deleted ?t1
      \<and> th_memsteps (snd (copy_iters h nthr 1 ?t1)) = th_memsteps ?t1
      \<and> barriers_passed (snd (copy_iters h nthr 1 ?t1)) = barriers_passed ?t1"
    using assms(3) by (intro copy_iters_all_ok) simp_all
  have b: "b" using f c by simp
  let ?t3 = "t2\<lparr>th_memsteps := (th_memsteps t2)(0 := Some CallerMemsteps)\<rparr>"
  obtain b' t4 where m: "copy_memsteps h nthr 1 ?t3 = (b', t4)"
    by (cases "copy_memsteps h nthr 1 ?t3")
  have g: "\<not> fst (copy_memsteps h nthr 1 ?t3)
      \<and> deleted (snd (copy_memsteps h nthr 1 ?t3)) =
          deleted ?t3 @ map (\<lambda>j. if 1 \<le> j \<and> j < k then Some (MemstepsCopy j) else th_memsteps ?t3 j)
                          (rev [1..<Suc (k - 1)])
      \<and> deallocated (snd (copy_memsteps h nthr 1 ?t3)) = deallocated ?t3 @ map (th_iter ?t3) [0..<nthr]
      \<and> barriers_passed (snd (copy_memsteps h nthr 1 ?t3)) = barriers_passed ?t3"
    using assms by (intro copy_memsteps_first_failure) simp_all
  have b': "\<not> b'" using g m by simp
  have r: "vm_engine_iter_parallel h nthr False th_params0 = (- 1, t4)"
    using c b m b' by (simp add: vm_engine_iter_parallel_def Let_def)
  have t2: "th_iter t2 = (\<lambda>j. if 1 \<le> j \<and> j < nthr then Some (IterCopy j) else th_iter ?t1 j)"
    "deallocated t2 = []" "deleted t2 = []" "\<not> barriers_passed t2"
    using f c by (simp_all add: th_params0_def)
  have del: "deleted t4 = map (Some \<circ> MemstepsCopy) (rev [1..<k])"
    using g m t2(3) map_rev_range [OF assms(1), of MemstepsCopy "th_memsteps ?t3"] by simp
  have "0 < nthr" using assms(2) by simp
  then have up: "[0..<nthr] = 0 # [1..<nthr]" by (simp add: upt_rec)
  have "map (th_iter t2) [0..<nthr] = Some CallerIter # map (Some \<circ> IterCopy) [1..<nthr]"
    unfolding up t2(1) by (auto simp: th_params0_def)
  then have dea: "deallocated t4 = Some CallerIter # map (Some \<circ> IterCopy) [1..<nthr]"
    using g m t2(2) by simp
  have "\<not> barriers_passed t4" using g m t2(4) by simp
  then show ?thesis using r del dea by simp
qed

theorem iterator_copy_failure_rollback_witness:
  "deallocated (snd (vm_engine_iter_parallel
      \<lparr>copy_ok = (\<lambda>i. i < 3), new_ok = (\<lambda>_. True), worker_ret_code = 0\<rparr> 4 False th_params0))
    = [Some (IterCopy 2), Some (IterCopy 1)]"
proof -
  let ?h = "\<lparr>copy_ok = (\<lambda>i. i < 3), new_ok = (\<lambda>_. True), worker_ret_code = 0\<rparr> :: host_alloc"
  have "1 \<le> (3::nat)" "(3::nat) < 4" "\<not> copy_ok ?h 3" "\<And>j. 1 \<le> j \<Longrightarrow> j < 3 \<Longrightarrow> copy_ok ?h j"
    by simp_all
  from iterator_copy_failure_rollback [OF this]
  show ?thesis by (simp add: upt_rec)
qed

theorem memsteps_failure_rollback_witness:
  "deallocated (snd (vm_engine_iter_parallel
      \<lparr>copy_ok = (\<lambda>_. True), new_ok = (\<lambda>i. i < 2), worker_ret_code = 0\<rparr> 3 False th_params0))
    = [Some CallerIter, Some (IterCopy 1), Some (IterCopy 2)]
   \<and> deleted (snd (vm_engine_iter_parallel
      \<lparr>copy_ok = (\<lambda>_. True), new_ok = (\<lambda>i. i < 2), worker_ret_code = 0\<rparr> 3 False th_params0))
    = [Some (MemstepsCopy 1)]"
proof -
  let ?h = "\<lparr>copy_ok = (\<lambda>_. True), new_ok = (\<lambda>i. i < 2), worker_ret_code = 0\<rparr> :: host_alloc"
  have "1 \<le> (2::nat)" "(2::nat) < 3" "\<And>j. 1 \<le> j \<Longrightarrow> j < 3 \<Longrightarrow> copy_ok ?h j"
    "\<not> new_ok ?h 2" "\<And>j. 1 \<le> j \<Longrightarrow> j < 2 \<Longrightarrow> new_ok ?h j"
    by simp_all
  from memsteps_failure_rollback [OF this]
  show ?thesis by (simp add: upt_rec)
qed

subsection \<open>Characters as integers\<close>

lemma char_of_chr: "char_of (chr a) = a"
  by (simp add: chr_def)

lemma chr_eq_iff: "chr a = chr b \<longleftrightarrow> a = b"
  by (simp add: chr_def)

lemma chr_nonneg: "0 \<le> chr a"
  by (simp add: chr_def)

lemma chr_ne_minus1: "chr a \<noteq> - 1"
  by (simp add: chr_def)

lemma chr_eq_0: "chr a = 0 \<longleftrightarrow> a = CHR 0x00"
proof -
  have "chr (CHR 0x00) = 0" by (simp add: chr_def)
  then show ?thesis using chr_eq_iff [of a "CHR 0x00"] by simp
qed

lemma chr_le_0: "chr a \<le> 0 \<longleftrightarrow> a = CHR 0x00"
  using chr_eq_0 [of a] chr_nonneg [of a] by auto

subsection \<open>NumExpr_run and run_interpreter\<close>

lemma quiet_simps [simp]:
  "quiet UndefinedBehaviour" "quiet (fails ApiError)" "quiet (fails (ValueError m))"
  "quiet (fails (TypeError m))"
  by (auto simp: quiet_def execution_error_def)

lemma read_kwds_Inl: "read_kwds kwds = Inl out \<Longrightarrow> quiet out"
  by (auto simp: read_kwds_def split: option.splits if_splits out_kw.splits)

lemma convert_inputs_Inl: "convert_inputs s args op0 nob acc = Inl out \<Longrightarrow> quiet out"
proof (induction s args op0 nob acc rule: convert_inputs.induct)
  case (1 c cs ob obs op0 nob acc)
  then show ?case
    by (auto simp: Let_def split: if_splits option.splits pyobj.splits)
qed simp_all

lemma convert_inputs_Inr:
  "convert_inputs s args op0 nob acc = Inr (inputs, nob') \<Longrightarrow> length s = length args \<Longrightarrow>
   map Some inputs = map Some acc @ map operand_of args"
proof (induction s args op0 nob acc rule: convert_inputs.induct)
  case (1 c cs ob obs op0 nob acc)
  then show ?case
    by (auto simp: Let_def operand_of_def split: if_splits option.splits pyobj.splits)
qed simp_all

lemma reduction_setup_Inl:
  "reduction_setup cfg api prog retsig inputs op0 = Inl out \<Longrightarrow> quiet out"
  by (auto simp: reduction_setup_def Let_def split: option.splits if_splits prod.splits)




lemma reduction_setup_pending:
  "reduction_setup cfg api prog retsig inputs op0 = Inr (op0', oa_ndim, rs, pending) \<Longrightarrow>
   pending = None \<or> pending = Some ApiError"
  by (auto simp: reduction_setup_def Let_def split: option.splits if_splits prod.splits)

text \<open>The four ways a call of \<^verbatim>\<open>NumExpr_run\<close> ends.\<close>

lemma NumExpr_run_cases:
  "quiet (NumExpr_run cfg sg api nthr h bd self args kwds)
   \<or> (\<exists>prog inputs z. program self = Some prog \<and> map Some inputs = map operand_of args
         \<and> empty_input inputs = Some z
         \<and> NumExpr_run cfg sg api nthr h bd self args kwds =
             empty_result api (get_return_sig cfg sg prog) z)
   \<or> (\<exists>prog op0 pending. program self = Some prog \<and> args = []
         \<and> (pending = None \<or> pending = Some ApiError)
         \<and> NumExpr_run cfg sg api nthr h bd self args kwds =
             constant_result api bd self (get_return_sig cfg sg prog) op0 pending)
   \<or> (\<exists>prog op inputs rs pending. program self = Some prog \<and> last_opcode prog = Some op
         \<and> map Some inputs = map operand_of args \<and> empty_input inputs = None
         \<and> (pending = None \<or> pending = Some ApiError)
         \<and> NumExpr_run cfg sg api nthr h bd self args kwds =
             iterate cfg api nthr h bd self (op > OP_REDUCTION cfg) op rs pending)"
  (is "?Q \<or> ?E \<or> ?C \<or> ?I")
proof (cases "program self")
  case None
  then show ?thesis by (simp add: NumExpr_run_def)
next
  case (Some prog)
  note prog = this
  show ?thesis
  proof (cases "last_opcode prog")
    case None
    then show ?thesis using prog by (simp add: NumExpr_run_def)
  next
    case (Some last_op)
    note lo = this
    show ?thesis
    proof (cases "signature self")
      case None
      then show ?thesis using prog lo by (simp add: NumExpr_run_def)
    next
      case (Some sig)
      note sig = this
      show ?thesis
      proof (cases "length sig \<noteq> length args \<or> length args + 1 > NPY_MAXARGS api")
        case True
        then show ?thesis using prog lo sig by (auto simp: NumExpr_run_def)
      next
        case False
        then have len: "length sig = length args" "\<not> length args + 1 > NPY_MAXARGS api" by auto
        show ?thesis
        proof (cases "read_kwds kwds")
          case (Inl out)
          then show ?thesis using prog lo sig len read_kwds_Inl [OF Inl] by (simp add: NumExpr_run_def)
        next
          case (Inr op0)
          note kw = this
          show ?thesis
          proof (cases "convert_inputs sig args op0 False []")
            case (Inl out)
            then show ?thesis
              using prog lo sig len kw convert_inputs_Inl [OF Inl] by (simp add: NumExpr_run_def)
          next
            case (Inr res)
            obtain inputs nob where res: "res = (inputs, nob)" by (cases res)
            have ci: "convert_inputs sig args op0 False [] = Inr (inputs, nob)" using Inr res by simp
            have m: "map Some inputs = map operand_of args"
              using convert_inputs_Inr [OF ci len(1)] by simp
            then have nil: "inputs = [] \<longleftrightarrow> args = []" by (metis map_is_Nil_conv)
            let ?retsig = "get_return_sig cfg sg prog"
            let ?stage = "if last_op > OP_REDUCTION cfg then reduction_setup cfg api prog ?retsig inputs op0
                else if ?retsig \<noteq> CHR ''s'' \<and> typecode_from_char ?retsig = None
                then Inl (fails ApiError) else Inr (op0, 0, 1, None)"
            have run: "NumExpr_run cfg sg api nthr h bd self args kwds =
                (case ?stage of Inl out \<Rightarrow> out
                 | Inr (op0', oa_ndim, reduction_size, pending) \<Rightarrow>
                     if inputs \<noteq> [] then
                       (case empty_input inputs of
                          Some z \<Rightarrow> empty_result api ?retsig z
                        | None \<Rightarrow> iterate cfg api nthr h bd self (last_op > OP_REDUCTION cfg)
                                     last_op reduction_size pending)
                     else constant_result api bd self ?retsig op0' pending)"
              using prog lo sig len kw ci
              by (simp add: NumExpr_run_def Let_def split: sum.splits prod.splits)
            show ?thesis
            proof (cases ?stage)
              case (Inl out)
              have "quiet out"
                using Inl reduction_setup_Inl [of cfg api prog ?retsig inputs op0 out]
                by (auto split: if_splits)
              then show ?thesis using run Inl by simp
            next
              case (Inr st)
              obtain op0' oa_ndim rs pending where st: "st = (op0', oa_ndim, rs, pending)"
                by (cases st) auto
              have pend: "pending = None \<or> pending = Some ApiError"
                using Inr st reduction_setup_pending [of cfg api prog ?retsig inputs op0]
                by (auto split: if_splits)
              show ?thesis
              proof (cases "inputs = []")
                case True
                then have "NumExpr_run cfg sg api nthr h bd self args kwds =
                    constant_result api bd self ?retsig op0' pending"
                  using run Inr st by simp
                then have ?C using prog True nil pend by blast
                then show ?thesis by blast
              next
                case False
                show ?thesis
                proof (cases "empty_input inputs")
                  case None
                  then have "NumExpr_run cfg sg api nthr h bd self args kwds =
                      iterate cfg api nthr h bd self (last_op > OP_REDUCTION cfg) last_op rs pending"
                    using run Inr st False by simp
                  then have ?I using prog lo m None pend by blast
                  then show ?thesis by blast
                next
                  case (Some z)
                  then have "NumExpr_run cfg sg api nthr h bd self args kwds =
                      empty_result api ?retsig z"
                    using run Inr st False by simp
                  then have ?E using prog m Some by blast
                  then show ?thesis by blast
                qed
              qed
            qed
          qed
        qed
      qed
    qed
  qed
qed




text \<open>
  In a program made of whole instructions the slots are the instructions at 0, 4, 8, ...
\<close>

lemma opcodes_backwards_rev:
  assumes "length prog mod 4 = 0"
  shows "opcodes_backwards prog = rev (map (\<lambda>k. uint (prog ! (4 * k))) [0..<length prog div 4])"
proof (rule nth_equalityI)
  show "length (opcodes_backwards prog) = length (rev (map (\<lambda>k. uint (prog ! (4 * k))) [0..<length prog div 4]))"
    by (simp add: opcodes_backwards_def)
next
  fix i assume "i < length (opcodes_backwards prog)"
  then have i: "i < length prog div 4" by (simp add: opcodes_backwards_def)
  obtain n where n: "length prog = 4 * n" using assms by (auto simp: mod_eq_0_iff_dvd)
  then have "length prog - 4 * Suc i = 4 * (length prog div 4 - Suc i)"
    by (simp add: diff_mult_distrib2)
  then show "opcodes_backwards prog ! i = rev (map (\<lambda>k. uint (prog ! (4 * k))) [0..<length prog div 4]) ! i"
    using i by (simp add: opcodes_backwards_def rev_nth)
qed


lemma run_interpreter_end_Some:
  "run_interpreter_end cs eo = Some res \<Longrightarrow> ir_return res = 0 \<and> ir_calls res = cs"
  by (auto simp: run_interpreter_end_def split: option.splits)

lemma run_interpreter_return:
  assumes "run_interpreter cfg gs h bd self it reduce_iter outer = Some res"
  shows "ir_return res = 0 \<or> (ir_return res = - 1 \<and> ir_calls res = [] \<and> ir_raised res = Some ApiError)"
proof -
  have "res = \<lparr>ir_return = - 1, ir_pc_error = - 1, ir_raised = Some ApiError, ir_calls = []\<rparr>
      \<or> (\<exists>cs eo. run_interpreter_end cs eo = Some res)"
    using assms
    by (auto simp: run_interpreter_def early_return_def split: option.splits if_splits prod.splits)
  then show ?thesis using run_interpreter_end_Some by auto
qed

lemma run_interpreter_parallel_call:
  assumes "run_interpreter cfg gs h bd self it reduce_iter outer = Some res"
    "ParallelEngine \<in> set (ir_calls res)"
  shows "nthreads gs \<noteq> 1 \<and> \<not> force_serial gs \<and> reduce_iter = None"
proof -
  have "ir_calls res = [] \<or> ir_calls res = [SerialTask] \<or> ir_calls res = [OuterReduceTask]
      \<or> ir_calls res = [InnerReduceTask]
      \<or> (ir_calls res = [ParallelEngine] \<and> nthreads gs \<noteq> 1 \<and> \<not> force_serial gs \<and> reduce_iter = None)"
    using assms(1)
    by (auto simp: run_interpreter_def early_return_def
        dest!: run_interpreter_end_Some split: option.splits if_splits prod.splits)
  then show ?thesis using assms(2) by auto
qed

lemma run_interpreter_calls:
  assumes "run_interpreter cfg gs h bd self it reduce_iter outer = Some res"
  shows "ConstantBlock \<notin> set (ir_calls res)"
proof -
  have "ir_calls res = [] \<or> ir_calls res = [SerialTask] \<or> ir_calls res = [OuterReduceTask]
      \<or> ir_calls res = [InnerReduceTask] \<or> ir_calls res = [ParallelEngine]"
    using assms
    by (auto simp: run_interpreter_def early_return_def
        dest!: run_interpreter_end_Some split: option.splits if_splits prod.splits)
  then show ?thesis by auto
qed

lemma run_interpreter_refuses:
  assumes "nthreads gs \<noteq> 1" "\<not> force_serial gs" "reduce_iter = Some rit" "program self = Some prog"
  shows "run_interpreter cfg gs h bd self it reduce_iter outer =
    Some \<lparr>ir_return = 0, ir_pc_error = - 1, ir_raised = Some (RuntimeError no_parallel_reduction),
          ir_calls = []\<rparr>"
  using assms by (simp add: run_interpreter_def run_interpreter_end_def)

lemma iterate_cases:
  "iterate cfg api nthr h bd self red op rs pending = fails ApiError
   \<or> iterate cfg api nthr h bd self red op rs pending = DoesNotReturn
   \<or> (\<exists>it reduce_iter outer ri. advanced_new api = Some it
        \<and> run_interpreter cfg
             \<lparr>nthreads = nthr, force_serial = (iter_size it < 2 * BLOCK_SIZE1 cfg \<or> red)\<rparr>
             h bd self it reduce_iter outer = Some ri
        \<and> iterate cfg api nthr h bd self red op rs pending =
            Done (report_status (ir_return ri) (ir_pc_error ri)
                    (case ir_raised ri of None \<Rightarrow> pending | Some e \<Rightarrow> Some e) it
                    ((if red then [Fill (reduction_unit cfg op)] else []) @ map Call (ir_calls ri))))"
proof (cases "make_iterators api rs")
  case (Inl out)
  then have "out = fails ApiError"
    by (auto simp: make_iterators_def split: option.splits if_splits)
  then show ?thesis using Inl by (simp add: iterate_def)
next
  case (Inr tr)
  obtain it reduce_iter outer where tr: "tr = (it, reduce_iter, outer)" by (cases tr) auto
  have an: "advanced_new api = Some it"
    using Inr tr by (auto simp: make_iterators_def split: option.splits if_splits)
  show ?thesis
  proof (cases "run_interpreter cfg
             \<lparr>nthreads = nthr, force_serial = (iter_size it < 2 * BLOCK_SIZE1 cfg \<or> red)\<rparr>
             h bd self it reduce_iter outer")
    case None
    then show ?thesis using Inr tr by (simp add: iterate_def Let_def)
  next
    case (Some ri)
    then have "iterate cfg api nthr h bd self red op rs pending =
            Done (report_status (ir_return ri) (ir_pc_error ri)
                    (case ir_raised ri of None \<Rightarrow> pending | Some e \<Rightarrow> Some e) it
                    ((if red then [Fill (reduction_unit cfg op)] else []) @ map Call (ir_calls ri)))"
      using Inr tr by (simp add: iterate_def Let_def)
    then show ?thesis using an Some by blast
  qed
qed

lemma trace_report_status [simp]: "trace (report_status r pc pending it tr) = tr"
  by (simp add: report_status_def)

lemma quiet_Done: "quiet (Done res) \<Longrightarrow> trace res = [] \<and> ret res = None
    \<and> (\<exists>e. raised res = Some e \<and> \<not> execution_error e)"
  by (auto simp: quiet_def fails_def)

lemma empty_result_Done:
  "empty_result api retsig z = Done res \<Longrightarrow> trace res = [] \<and> (raised res = None \<or> raised res = Some ApiError)"
  by (auto simp: empty_result_def fails_def split: option.splits)

lemma constant_result_Done:
  "constant_result api bd self retsig op0 pending = Done res \<Longrightarrow>
   (trace res = [] \<and> (\<exists>e. raised res = Some e \<and> \<not> execution_error e))
   \<or> (trace res = [Call ConstantBlock] \<and> raised res = pending)"
  by (auto simp: constant_result_def fails_def execution_error_def
      split: option.splits if_splits prod.splits)

text \<open>
  Claim C5, as the code has it. In a call whose program ends in a reduction, whenever
  \<^verbatim>\<open>run_interpreter\<close> is reached through the iterators the output has been filled
  before, with 0 when the last opcode is in the sum family (from \<^verbatim>\<open>OP_SUM\<close> up to,
  not including, \<^verbatim>\<open>OP_PROD\<close>) and with 1 otherwise: the fill is the first event of the
  trace and every call of an engine comes after it. The calls that end before the iterators
  are made fill nothing: among them every call with an input of size 0.
\<close>

theorem reduction_output_prefilled:
  assumes "NumExpr_run cfg sg api nthr h bd self args kwds = Done res"
    and "program self = Some prog" and "last_opcode prog = Some op" and "op > OP_REDUCTION cfg"
  shows "trace res = [] \<or> trace res = [Call ConstantBlock]
    \<or> (\<exists>cs. trace res = Fill (if OP_SUM cfg \<le> op \<and> op < OP_PROD cfg then 0 else 1) # map Call cs
          \<and> ConstantBlock \<notin> set cs)"
proof -
  let ?run = "NumExpr_run cfg sg api nthr h bd self args kwds"
  consider (q) "quiet ?run"
    | (e) retsig z where "?run = empty_result api retsig z"
    | (c) retsig op0 pending where "?run = constant_result api bd self retsig op0 pending"
    | (i) rs pending where "?run = iterate cfg api nthr h bd self (op > OP_REDUCTION cfg) op rs pending"
    using NumExpr_run_cases [of cfg sg api nthr h bd self args kwds] assms(2,3) by auto
  then show ?thesis
  proof cases
    case q
    then show ?thesis using assms(1) quiet_Done by auto
  next
    case e
    then show ?thesis using assms(1) empty_result_Done by metis
  next
    case c
    then show ?thesis using assms(1) constant_result_Done by metis
  next
    case i
    from iterate_cases [of cfg api nthr h bd self "op > OP_REDUCTION cfg" op rs pending]
    consider "?run = fails ApiError" | "?run = DoesNotReturn"
      | it reduce_iter outer ri where
        "run_interpreter cfg
             \<lparr>nthreads = nthr, force_serial = (iter_size it < 2 * BLOCK_SIZE1 cfg \<or> op > OP_REDUCTION cfg)\<rparr>
             h bd self it reduce_iter outer = Some ri"
        "?run = Done (report_status (ir_return ri) (ir_pc_error ri)
                    (case ir_raised ri of None \<Rightarrow> pending | Some e \<Rightarrow> Some e) it
                    ((if op > OP_REDUCTION cfg then [Fill (reduction_unit cfg op)] else [])
                      @ map Call (ir_calls ri)))"
      using i by auto
    then show ?thesis
    proof cases
      case 1
      then show ?thesis using assms(1) by (simp add: fails_def)
    next
      case 2
      then show ?thesis using assms(1) by simp
    next
      case 3
      have "trace res = Fill (reduction_unit cfg op) # map Call (ir_calls ri)"
        using 3(2) assms(1,4) by auto
      moreover have "ConstantBlock \<notin> set (ir_calls ri)" using run_interpreter_calls [OF 3(1)] .
      ultimately show ?thesis by (auto simp: reduction_unit_def)
    qed
  qed
qed

text \<open>The equations that run a concrete call.\<close>

lemmas run_simps =
  NumExpr_run_def last_opcode_def get_return_sig_def get_return_sig_loop.simps
  read_kwds_def typecode_from_char_def reduction_setup_def get_reduction_axis_def
  empty_input_def empty_result_def constant_result_def make_iterators_def iterate_def
  run_interpreter_def run_interpreter_end_def run_interpreter_const_def
  vm_engine_iter_task_def vm_engine_iter_outer_reduce_task_def reduce_step_def
  report_status_def reduction_unit_def fails_def early_return_def
  PyArray_SIZE_def PyArray_NDIM_def max_axis_size_def axis_size_def size_ptr_def
  BOUNDS_CHECK_def op_signature_def max_args_def char_val_def
  char_of_chr chr_eq_iff chr_nonneg chr_ne_minus1 chr_le_0 chr_eq_0
  vm_engine_iter_parallel_def th_params0_def copy_iters.simps copy_memsteps.simps
  NpyIter_Deallocate_def PyMem_Del_def upt_rec Let_def

lemmas demo_defs =
  demo_isa_def demo_rows_def demo_object_def demo_api_def demo_iter_def demo_host_def
  demo_bodies_def demo_array_def

text \<open>
  Claim C9, as the code has it. When \<^verbatim>\<open>NumExpr_run\<close> calls the parallel engine, the
  program is not a reduction, the size of the iteration is at least twice
  \<^verbatim>\<open>BLOCK_SIZE1\<close> and there is more than one thread. And \<^verbatim>\<open>run_interpreter\<close>, on
  its parallel branch, refuses every evaluation that comes with a reduce iterator: it sets
  the error "Parallel engine doesn't support reduction yet", calls no engine and returns 0.
\<close>

theorem parallel_engine_dispatch:
  "(\<forall>res. NumExpr_run cfg sg api nthr h bd self args kwds = Done res
        \<and> Call ParallelEngine \<in> set (trace res)
      \<longrightarrow> (\<exists>prog op it. program self = Some prog \<and> last_opcode prog = Some op
            \<and> \<not> op > OP_REDUCTION cfg \<and> advanced_new api = Some it
            \<and> \<not> iter_size it < 2 * BLOCK_SIZE1 cfg \<and> nthr \<noteq> 1))
   \<and> (\<forall>gs prog it rit outer. nthreads gs \<noteq> 1 \<and> \<not> force_serial gs \<and> program self = Some prog
      \<longrightarrow> run_interpreter cfg gs h bd self it (Some rit) outer =
            Some \<lparr>ir_return = 0, ir_pc_error = - 1,
                  ir_raised = Some (RuntimeError no_parallel_reduction), ir_calls = []\<rparr>)"
proof (intro conjI allI impI)
  fix res
  assume a: "NumExpr_run cfg sg api nthr h bd self args kwds = Done res
        \<and> Call ParallelEngine \<in> set (trace res)"
  let ?run = "NumExpr_run cfg sg api nthr h bd self args kwds"
  have tr: "trace res \<noteq> []" "trace res \<noteq> [Call ConstantBlock]" using a by auto
  consider (q) "quiet ?run"
    | (e) retsig z where "?run = empty_result api retsig z"
    | (c) retsig op0 pending where "?run = constant_result api bd self retsig op0 pending"
    | (i) prog op rs pending where "program self = Some prog" "last_opcode prog = Some op"
        "?run = iterate cfg api nthr h bd self (op > OP_REDUCTION cfg) op rs pending"
    using NumExpr_run_cases [of cfg sg api nthr h bd self args kwds] by blast
  then show "\<exists>prog op it. program self = Some prog \<and> last_opcode prog = Some op
            \<and> \<not> op > OP_REDUCTION cfg \<and> advanced_new api = Some it
            \<and> \<not> iter_size it < 2 * BLOCK_SIZE1 cfg \<and> nthr \<noteq> 1"
  proof cases
    case q
    then show ?thesis using a tr quiet_Done by auto
  next
    case e
    then show ?thesis using a tr empty_result_Done by metis
  next
    case c
    then show ?thesis using a tr constant_result_Done by metis
  next
    case i
    from iterate_cases [of cfg api nthr h bd self "op > OP_REDUCTION cfg" op rs pending]
    consider "?run = fails ApiError" | "?run = DoesNotReturn"
      | it reduce_iter outer ri where "advanced_new api = Some it"
        "run_interpreter cfg
             \<lparr>nthreads = nthr, force_serial = (iter_size it < 2 * BLOCK_SIZE1 cfg \<or> op > OP_REDUCTION cfg)\<rparr>
             h bd self it reduce_iter outer = Some ri"
        "?run = Done (report_status (ir_return ri) (ir_pc_error ri)
                    (case ir_raised ri of None \<Rightarrow> pending | Some e \<Rightarrow> Some e) it
                    ((if op > OP_REDUCTION cfg then [Fill (reduction_unit cfg op)] else [])
                      @ map Call (ir_calls ri)))"
      using i(3) by auto
    then show ?thesis
    proof cases
      case 1
      then show ?thesis using a tr by (simp add: fails_def)
    next
      case 2
      then show ?thesis using a by simp
    next
      case 3
      have "trace res = (if op > OP_REDUCTION cfg then [Fill (reduction_unit cfg op)] else [])
                      @ map Call (ir_calls ri)"
        using 3(3) a by auto
      then have "ParallelEngine \<in> set (ir_calls ri)" using a by (auto split: if_splits)
      then have "nthr \<noteq> 1 \<and> \<not> (iter_size it < 2 * BLOCK_SIZE1 cfg \<or> op > OP_REDUCTION cfg)"
        using run_interpreter_parallel_call [OF 3(2)] by simp
      then show ?thesis using i(1,2) 3(1) by blast
    qed
  qed
next
  fix gs :: global_state and prog it rit outer
  assume "nthreads gs \<noteq> 1 \<and> \<not> force_serial gs \<and> program self = Some prog"
  then show "run_interpreter cfg gs h bd self it (Some rit) outer =
            Some \<lparr>ir_return = 0, ir_pc_error = - 1,
                  ir_raised = Some (RuntimeError no_parallel_reduction), ir_calls = []\<rparr>"
    using run_interpreter_refuses [of gs "Some rit" rit self prog] by simp
qed

text \<open>
  Claim C9 as stated fails for a full reduction, which has no reduce iterator: on the
  parallel branch of \<^verbatim>\<open>run_interpreter\<close> it is handed to the parallel engine.
\<close>

theorem parallel_engine_dispatch_counterexample:
  "last_opcode [9, 0, 1, 255] = Some 9 \<and> 9 > OP_REDUCTION demo_isa
   \<and> run_interpreter demo_isa \<lparr>nthreads = 2, force_serial = False\<rparr> demo_host
       (demo_bodies (\<lambda>_. None)) (demo_object [9, 0, 1, 255] ''dd'' ''d'')
       (demo_iter [] [128, 128, 44] 300) None False
     = Some \<lparr>ir_return = 0, ir_pc_error = - 1, ir_raised = None, ir_calls = [ParallelEngine]\<rparr>"
  by (simp add: run_simps demo_defs)

text \<open>
  Claim C5 as stated fails over zero elements: the sum and the product of an input of
  shape (0) are a new array of shape (0), which holds no element and was never filled.
\<close>

theorem reduction_output_prefilled_counterexample:
  "NumExpr_run demo_isa True (demo_api None None) 1 demo_host (demo_bodies (\<lambda>_. None))
     (demo_object [9, 0, 1, 255] ''dd'' ''d'') [ArrayObj (demo_array [0] 500)] None
   = Done \<lparr>ret = Some (demo_array [0] 1000), raised = None, trace = []\<rparr>
   \<and> NumExpr_run demo_isa True (demo_api None None) 1 demo_host (demo_bodies (\<lambda>_. None))
     (demo_object [10, 0, 1, 255] ''dd'' ''d'') [ArrayObj (demo_array [0] 500)] None
   = Done \<lparr>ret = Some (demo_array [0] 1000), raised = None, trace = []\<rparr>
   \<and> PyArray_SIZE (demo_array [0] 1000) = 0"
  by (simp add: run_simps demo_defs)

text \<open>
  The two ends of the path of a status: \<^verbatim>\<open>BOUNDS_CHECK\<close> returns -2 with the program
  counter, and the end of \<^verbatim>\<open>NumExpr_run\<close> would turn -2 and -3 into the two errors
  that print it.
\<close>

lemma BOUNDS_CHECK_fires: "arg \<ge> r_end \<Longrightarrow> BOUNDS_CHECK arg r_end pc = Some (- 2, pc)"
  by (simp add: BOUNDS_CHECK_def)

lemma report_status_maps:
  "raised (report_status (- 2) pc pending it tr) = Some (BadArgumentAtPc pc)"
  "raised (report_status (- 3) pc pending it tr) = Some (BadOpcodeAtPc pc)"
  by (simp_all add: report_status_def)

text \<open>
  Claim C3 asks that a register index out of bounds ends as the error "bad argument at pc".
  The driver does return -2 with the program counter, but \<^verbatim>\<open>run_interpreter\<close> ends
  with \<^verbatim>\<open>return 0\<close> whatever the driver returned, so \<^verbatim>\<open>NumExpr_run\<close> sees the
  status 0: for a program whose first instruction stores into register 7 of 2, the call
  returns the output array and sets no error.
\<close>

theorem bounds_status_dropped:
  "vm_engine_iter_task demo_isa (\<lambda>_. BOUNDS_CHECK 7 2 0) (demo_iter [300] [128, 128, 44] 300)
     = Some \<lparr>er_status = - 2, er_pc_error = Some 0, er_errmsg = None\<rparr>
   \<and> run_interpreter demo_isa \<lparr>nthreads = 1, force_serial = False\<rparr> demo_host
       (demo_bodies (\<lambda>_. BOUNDS_CHECK 7 2 0)) (demo_object [1, 7, 1, 1] ''dd'' ''d'')
       (demo_iter [300] [128, 128, 44] 300) None False
     = Some \<lparr>ir_return = 0, ir_pc_error = 0, ir_raised = None, ir_calls = [SerialTask]\<rparr>
   \<and> NumExpr_run demo_isa True (demo_api (Some (demo_iter [300] [128, 128, 44] 300)) None) 1
       demo_host (demo_bodies (\<lambda>_. BOUNDS_CHECK 7 2 0)) (demo_object [1, 7, 1, 1] ''dd'' ''d'')
       [ArrayObj (demo_array [300] 500)] None
     = Done \<lparr>ret = Some (demo_array [300] 3000), raised = None, trace = [Call SerialTask]\<rparr>"
  by (simp add: run_simps demo_defs)


theorem reduction_output_prefilled_witness:
  "NumExpr_run demo_isa True (demo_api (Some (demo_iter [] [128, 128, 44] 300)) None) 4 demo_host
     (demo_bodies (\<lambda>_. None)) (demo_object [9, 0, 1, 255] ''dd'' ''d'')
     [ArrayObj (demo_array [300] 500)] None
   = Done \<lparr>ret = Some (demo_array [] 3000), raised = None, trace = [Fill 0, Call SerialTask]\<rparr>
   \<and> NumExpr_run demo_isa True (demo_api (Some (demo_iter [] [128, 128, 44] 300)) None) 4 demo_host
     (demo_bodies (\<lambda>_. None)) (demo_object [10, 0, 1, 255] ''dd'' ''d'')
     [ArrayObj (demo_array [300] 500)] None
   = Done \<lparr>ret = Some (demo_array [] 3000), raised = None, trace = [Fill 1, Call SerialTask]\<rparr>"
proof -
  let ?api = "demo_api (Some (demo_iter [] [128, 128, 44] 300)) None"
  let ?sum = "demo_object [9, 0, 1, 255] ''dd'' ''d''"
  let ?prod = "demo_object [10, 0, 1, 255] ''dd'' ''d''"
  have s: "NumExpr_run demo_isa True ?api 4 demo_host (demo_bodies (\<lambda>_. None)) ?sum
     [ArrayObj (demo_array [300] 500)] None
   = Done \<lparr>ret = Some (demo_array [] 3000), raised = None, trace = [Fill 0, Call SerialTask]\<rparr>"
    by (simp add: run_simps demo_defs)
  have p: "NumExpr_run demo_isa True ?api 4 demo_host (demo_bodies (\<lambda>_. None)) ?prod
     [ArrayObj (demo_array [300] 500)] None
   = Done \<lparr>ret = Some (demo_array [] 3000), raised = None, trace = [Fill 1, Call SerialTask]\<rparr>"
    by (simp add: run_simps demo_defs)
  have ps: "program ?sum = Some [9, 0, 1, 255]" and pp: "program ?prod = Some [10, 0, 1, 255]"
    by (simp_all add: demo_object_def)
  have ls: "last_opcode [9, 0, 1, 255] = Some 9" and lp: "last_opcode [10, 0, 1, 255] = Some 10"
    by (simp_all add: last_opcode_def)
  have g: "9 > OP_REDUCTION demo_isa" "10 > OP_REDUCTION demo_isa" by (simp_all add: demo_isa_def)
  show ?thesis
    using reduction_output_prefilled [OF s ps ls g(1)] reduction_output_prefilled [OF p pp lp g(2)]
      s p by simp
qed

theorem parallel_engine_dispatch_witness:
  "NumExpr_run demo_isa True (demo_api (Some (demo_iter [300] [128, 128, 44] 300)) None) 4
     demo_host (demo_bodies (\<lambda>_. None)) (demo_object [1, 0, 1, 1] ''dd'' ''d'')
     [ArrayObj (demo_array [300] 500)] None
   = Done \<lparr>ret = Some (demo_array [300] 3000), raised = None, trace = [Call ParallelEngine]\<rparr>
   \<and> run_interpreter demo_isa \<lparr>nthreads = 4, force_serial = False\<rparr> demo_host
       (demo_bodies (\<lambda>_. None)) (demo_object [9, 0, 1, 0] ''dd'' ''d'')
       (demo_iter [300] [128, 128, 44] 300) (Some (demo_iter [300] [] 1)) False
     = Some \<lparr>ir_return = 0, ir_pc_error = - 1,
             ir_raised = Some (RuntimeError no_parallel_reduction), ir_calls = []\<rparr>"
proof -
  let ?api = "demo_api (Some (demo_iter [300] [128, 128, 44] 300)) None"
  let ?obj = "demo_object [1, 0, 1, 1] ''dd'' ''d''"
  have r: "NumExpr_run demo_isa True ?api 4 demo_host (demo_bodies (\<lambda>_. None)) ?obj
     [ArrayObj (demo_array [300] 500)] None
   = Done \<lparr>ret = Some (demo_array [300] 3000), raised = None, trace = [Call ParallelEngine]\<rparr>"
    by (simp add: run_simps demo_defs)
  have p: "program (demo_object [9, 0, 1, 0] ''dd'' ''d'') = Some [9, 0, 1, 0]"
    by (simp add: demo_object_def)
  have "run_interpreter demo_isa \<lparr>nthreads = 4, force_serial = False\<rparr> demo_host
       (demo_bodies (\<lambda>_. None)) (demo_object [9, 0, 1, 0] ''dd'' ''d'')
       (demo_iter [300] [128, 128, 44] 300) (Some (demo_iter [300] [] 1)) False
     = Some \<lparr>ir_return = 0, ir_pc_error = - 1,
             ir_raised = Some (RuntimeError no_parallel_reduction), ir_calls = []\<rparr>"
    using parallel_engine_dispatch [of demo_isa True ?api 4 demo_host "demo_bodies (\<lambda>_. None)"
        "demo_object [9, 0, 1, 0] ''dd'' ''d''" "[ArrayObj (demo_array [300] 500)]" None,
        THEN conjunct2, rule_format, of "\<lparr>nthreads = 4, force_serial = False\<rparr>" "[9, 0, 1, 0]"]
      p by simp
  then show ?thesis using r by simp
qed

lemma run_interpreter_end_raised:
  assumes "run_interpreter_end cs eo = Some res"
  shows "ir_raised res = None \<or> (\<exists>m. ir_raised res = Some (RuntimeError m))"
proof -
  obtain e where e: "eo = Some e" using assms by (cases eo) (simp_all add: run_interpreter_end_def)
  have "ir_raised res =
      (if er_status e < 0
       then (case er_errmsg e of None \<Rightarrow> None | Some m \<Rightarrow> Some (RuntimeError m)) else None)"
    using assms e by (auto simp: run_interpreter_end_def)
  then show ?thesis by (cases "er_errmsg e") auto
qed

lemma run_interpreter_raised:
  assumes "run_interpreter cfg gs h bd self it reduce_iter outer = Some res"
  shows "ir_raised res = None \<or> ir_raised res = Some ApiError \<or> (\<exists>m. ir_raised res = Some (RuntimeError m))"
proof -
  have "res = \<lparr>ir_return = - 1, ir_pc_error = - 1, ir_raised = Some ApiError, ir_calls = []\<rparr>
      \<or> (\<exists>cs eo. run_interpreter_end cs eo = Some res)"
    using assms
    by (auto simp: run_interpreter_def early_return_def split: option.splits if_splits prod.splits)
  then show ?thesis
  proof
    assume "res = \<lparr>ir_return = - 1, ir_pc_error = - 1, ir_raised = Some ApiError, ir_calls = []\<rparr>"
    then show ?thesis by simp
  next
    assume "\<exists>cs eo. run_interpreter_end cs eo = Some res"
    then obtain cs eo where "run_interpreter_end cs eo = Some res" by blast
    then show ?thesis using run_interpreter_end_raised [of cs eo res] by blast
  qed
qed

text \<open>
  No call of \<^verbatim>\<open>NumExpr_run\<close> ends with "bad argument at pc" or "bad opcode at pc".
\<close>

theorem NumExpr_run_never_reports_pc:
  assumes "NumExpr_run cfg sg api nthr h bd self args kwds = Done res"
  shows "raised res \<noteq> Some (BadArgumentAtPc pc) \<and> raised res \<noteq> Some (BadOpcodeAtPc pc)"
proof -
  let ?run = "NumExpr_run cfg sg api nthr h bd self args kwds"
  consider (q) "quiet ?run"
    | (e) retsig z where "?run = empty_result api retsig z"
    | (c) retsig op0 pending where "pending = None \<or> pending = Some ApiError"
        "?run = constant_result api bd self retsig op0 pending"
    | (i) op rs pending where "pending = None \<or> pending = Some ApiError"
        "?run = iterate cfg api nthr h bd self (op > OP_REDUCTION cfg) op rs pending"
    using NumExpr_run_cases [of cfg sg api nthr h bd self args kwds] by blast
  then show ?thesis
  proof cases
    case q
    then show ?thesis using assms quiet_Done [of res] by (auto simp: execution_error_def)
  next
    case e
    then show ?thesis using assms empty_result_Done [of api retsig z res] by auto
  next
    case c
    then show ?thesis
      using assms constant_result_Done [of api bd self retsig op0 pending res]
      by (auto simp: execution_error_def)
  next
    case i
    from iterate_cases [of cfg api nthr h bd self "op > OP_REDUCTION cfg" op rs pending]
    consider "?run = fails ApiError" | "?run = DoesNotReturn"
      | it reduce_iter outer ri where
        "run_interpreter cfg
             \<lparr>nthreads = nthr, force_serial = (iter_size it < 2 * BLOCK_SIZE1 cfg \<or> op > OP_REDUCTION cfg)\<rparr>
             h bd self it reduce_iter outer = Some ri"
        "?run = Done (report_status (ir_return ri) (ir_pc_error ri)
                    (case ir_raised ri of None \<Rightarrow> pending | Some e \<Rightarrow> Some e) it
                    ((if op > OP_REDUCTION cfg then [Fill (reduction_unit cfg op)] else [])
                      @ map Call (ir_calls ri)))"
      using i(2) by auto
    then show ?thesis
    proof cases
      case 1
      then show ?thesis using assms by (simp add: fails_def)
    next
      case 2
      then show ?thesis using assms by simp
    next
      case 3
      have r: "ir_return ri = 0 \<or> ir_return ri = - 1"
        using run_interpreter_return [OF 3(1)] by auto
      have e: "ir_raised ri = None \<or> ir_raised ri = Some ApiError
          \<or> (\<exists>m. ir_raised ri = Some (RuntimeError m))"
        using run_interpreter_raised [OF 3(1)] .
      have "res = report_status (ir_return ri) (ir_pc_error ri)
                    (case ir_raised ri of None \<Rightarrow> pending | Some e \<Rightarrow> Some e) it
                    ((if op > OP_REDUCTION cfg then [Fill (reduction_unit cfg op)] else [])
                      @ map Call (ir_calls ri))"
        using 3(2) assms by simp
      then show ?thesis
        using r e i(1) by (auto simp: report_status_def split: option.splits)
    qed
  qed
qed

theorem NumExpr_run_never_reports_pc_witness:
  "NumExpr_run demo_isa True (demo_api (Some (demo_iter [300] [128, 128, 44] 300)) None) 1
       demo_host (demo_bodies (\<lambda>_. BOUNDS_CHECK 7 2 0)) (demo_object [1, 7, 1, 1] ''dd'' ''d'')
       [ArrayObj (demo_array [300] 500)] None
     = Done \<lparr>ret = Some (demo_array [300] 3000), raised = None, trace = [Call SerialTask]\<rparr>
   \<and> raised \<lparr>ret = Some (demo_array [300] 3000), raised = None, trace = [Call SerialTask]\<rparr>
       \<noteq> Some (BadArgumentAtPc 0)"
proof -
  have r: "NumExpr_run demo_isa True (demo_api (Some (demo_iter [300] [128, 128, 44] 300)) None) 1
       demo_host (demo_bodies (\<lambda>_. BOUNDS_CHECK 7 2 0)) (demo_object [1, 7, 1, 1] ''dd'' ''d'')
       [ArrayObj (demo_array [300] 500)] None
     = Done \<lparr>ret = Some (demo_array [300] 3000), raised = None, trace = [Call SerialTask]\<rparr>"
    by (simp add: run_simps demo_defs)
  show ?thesis using NumExpr_run_never_reports_pc [OF r, of 0] r by simp
qed

end
